theory Spec2Isabelle
  imports Complex_Main "HOL-Library.Char_ord" "HOL-Library.List_Lexorder" "HOL-Library.Word"
begin

section \<open>Beta-binomial A/B test statistics (dscontrib.flawrence.abtest_stats.beta)\<close>

text \<open>
  A shallow embedding of \<^verbatim>\<open>beta.py\<close>. Exceptions are values of a sum type, the
  global numpy random generator is an explicit state that every function returns (also
  when it raises, as the Python generator keeps what it consumed), and the library
  functions the module calls but does not define are fields of a record of parameters.
\<close>

subsection \<open>Exceptions and floating-point values\<close>

text \<open>
  The first four constructors are the exception classes the module can raise
  (\<^verbatim>\<open>assert\<close>, numpy and pandas). The last five are the error names of the
  specification; the source defines and raises none of them, so no function below
  returns them.
\<close>

datatype error =
    AssertionError | ValueError | KeyError | IndexError
  | InvalidSummaryError | InvalidSampleCountError
  | MissingControlError | AmbiguousBranchError | NonBinaryMetricError

text \<open>
  A float64 cell: a finite value (taken as a real number, rounding is not modelled),
  an infinity or NaN.
\<close>

datatype npfloat = Finite real | PosInf | NegInf | NaN

fun bind_err :: "error + 'a \<Rightarrow> ('a \<Rightarrow> error + 'b) \<Rightarrow> error + 'b" where
  "bind_err (Inl e) f = Inl e"
| "bind_err (Inr x) f = f x"

text \<open>
  The cells of the summary table are numpy int64 values: \<open>+\<close> and \<open>-\<close> wrap
  around, \<open>sint\<close> reads the value.
\<close>

type_synonym int64 = "64 word"

text \<open>
  numpy's true division of two int64 values: both are converted to float64, and a zero
  divisor gives inf or nan, no exception.
\<close>

definition true_divide :: "int64 \<Rightarrow> int64 \<Rightarrow> npfloat" where
  "true_divide c n =
     (if n \<noteq> 0 then Finite (real_of_int (sint c) / real_of_int (sint n))
      else if 0 < sint c then PosInf else if sint c < 0 then NegInf else NaN)"

text \<open>The NaN-skipping maximum of two cells, the step of \<^verbatim>\<open>DataFrame.max\<close>.\<close>

fun fmax :: "npfloat \<Rightarrow> npfloat \<Rightarrow> npfloat" where
  "fmax NaN y = y"
| "fmax x NaN = x"
| "fmax PosInf y = PosInf"
| "fmax x PosInf = PosInf"
| "fmax NegInf y = y"
| "fmax x NegInf = x"
| "fmax (Finite a) (Finite b) = Finite (max a b)"

subsection \<open>Tables\<close>

text \<open>
  A row of the summary table. The parameters \<^verbatim>\<open>num_enrollments_label\<close> and
  \<^verbatim>\<open>num_conversions_label\<close> of the source select the two columns of the table; the
  model holds the values of these two columns as the fields of the row. The table keeps
  the order of \<^verbatim>\<open>df.index\<close>. The table is a pandas frame of integers, so its
  cells are int64 values.
\<close>

record srow =
  num_enrollments :: int64
  num_conversions :: int64

type_synonym summary = "(string \<times> srow) list"

text \<open>\<^verbatim>\<open>df.loc[l]\<close> on a summary table whose index holds \<open>l\<close> once.\<close>

definition loc :: "summary \<Rightarrow> string \<Rightarrow> error + srow" where
  "loc df l = (case map_of df l of None \<Rightarrow> Inl KeyError | Some r \<Rightarrow> Inr r)"

text \<open>A pandas Series of floats: labels in order, each with its value.\<close>

type_synonym series = "(string \<times> npfloat) list"

definition new_series :: "string list \<Rightarrow> series" where
  "new_series idx = map (\<lambda>l. (l, NaN)) idx"

text \<open>\<^verbatim>\<open>res[l] = v\<close>: overwrite the label's value, or append the label.\<close>

definition series_setitem :: "series \<Rightarrow> string \<Rightarrow> npfloat \<Rightarrow> series" where
  "series_setitem s l v =
     (if l \<in> set (map fst s) then map (\<lambda>(k, x). if k = l then (k, v) else (k, x)) s
      else s @ [(l, v)])"

text \<open>\<^verbatim>\<open>res[[l1, ..., lk]] = array\<close>: every label must exist, one value per label.\<close>

definition series_setitems :: "series \<Rightarrow> string list \<Rightarrow> npfloat list \<Rightarrow> error + series" where
  "series_setitems s ls vs =
     (if \<not> set ls \<subseteq> set (map fst s) then Inl KeyError
      else if length ls \<noteq> length vs then Inl ValueError
      else Inr (fold (\<lambda>(l, v) acc. series_setitem acc l v) (zip ls vs) s))"

text \<open>
  The sample table: \<^verbatim>\<open>pd.DataFrame(index=np.arange(num_samples), columns=df.index)\<close>,
  every cell NaN until its column is assigned.
\<close>

record frame =
  index :: "nat list"
  columns :: "(string \<times> npfloat list) list"

definition arange :: "int \<Rightarrow> nat list" where
  "arange n = [0..<nat n]"

definition new_frame :: "nat list \<Rightarrow> string list \<Rightarrow> frame" where
  "new_frame idx cols =
     \<lparr>index = idx, columns = map (\<lambda>l. (l, replicate (length idx) NaN)) cols\<rparr>"

text \<open>\<^verbatim>\<open>samples[l] = array\<close>: the array must have one value per index entry.\<close>

definition frame_setitem :: "frame \<Rightarrow> string \<Rightarrow> npfloat list \<Rightarrow> error + frame" where
  "frame_setitem f l arr =
     (if length arr \<noteq> length (index f) then Inl ValueError
      else Inr (f\<lparr>columns :=
        (if l \<in> set (map fst (columns f))
         then map (\<lambda>(k, c). if k = l then (k, arr) else (k, c)) (columns f)
         else columns f @ [(l, arr)])\<rparr>))"

definition frame_getitem :: "frame \<Rightarrow> string \<Rightarrow> error + npfloat list" where
  "frame_getitem f l = (case map_of (columns f) l of None \<Rightarrow> Inl KeyError | Some c \<Rightarrow> Inr c)"

text \<open>\<^verbatim>\<open>samples.drop(l, axis='columns')\<close>.\<close>

definition frame_drop :: "frame \<Rightarrow> string \<Rightarrow> error + frame" where
  "frame_drop f l =
     (if l \<notin> set (map fst (columns f)) then Inl KeyError
      else Inr (f\<lparr>columns := filter (\<lambda>(k, c). k \<noteq> l) (columns f)\<rparr>))"

text \<open>\<^verbatim>\<open>.max(axis='columns')\<close>: per row, the maximum over the columns, NaN skipped.\<close>

definition frame_max_columns :: "frame \<Rightarrow> npfloat list" where
  "frame_max_columns f =
     map (\<lambda>i. foldr fmax (map (\<lambda>(k, c). c ! i) (columns f)) NaN) [0..<length (index f)]"

subsection \<open>Library functions taken as parameters\<close>

text \<open>
  \<open>beta_variate a b g\<close> is one draw of numpy's generator from Beta(a, b) in state
  \<open>g\<close>, with the state after the draw; \<open>beta_ppf a b p\<close> is
  \<^verbatim>\<open>scipy.stats.beta(a, b).ppf(p)\<close>; both take the value of the int64 they are
  called with; \<open>compare_two_sample_sets\<close> is the pairwise
  comparator the module imports from its package (a function of two sample arrays,
  its result type \<open>'r\<close> is left open); \<open>res_columns\<close> is the package's list of
  the comparator's statistic names; \<open>loc_labels df ls\<close> is pandas'
  \<^verbatim>\<open>df.loc[ls]\<close> for a list of labels, whose treatment of a missing label differs
  between pandas releases.
\<close>

record ('g, 'r) ext =
  beta_variate :: "int \<Rightarrow> int \<Rightarrow> 'g \<Rightarrow> real \<times> 'g"
  beta_ppf :: "int \<Rightarrow> int \<Rightarrow> real \<Rightarrow> npfloat"
  compare_two_sample_sets :: "npfloat list \<Rightarrow> npfloat list \<Rightarrow> 'r"
  res_columns :: "string list"
  loc_labels :: "summary \<Rightarrow> string list \<Rightarrow> error + summary"

text \<open>
  Modelled from the spec: \<^verbatim>\<open>one_res_index\<close>, a constant of the package's
  \<^verbatim>\<open>__init__.py\<close>, which is not among the sources. The specification's Single-Branch
  Summary holds a point estimate \<^verbatim>\<open>mean\<close> and the four quantiles 0.5%, 5%, 95% and
  99.5%.
\<close>

definition one_res_index :: "string list" where
  "one_res_index = [''mean'', ''0.005'', ''0.05'', ''0.95'', ''0.995'']"

text \<open>\<open>k\<close> successive draws, threading the generator.\<close>

fun beta_draws :: "(int \<Rightarrow> int \<Rightarrow> 'g \<Rightarrow> real \<times> 'g) \<Rightarrow> int \<Rightarrow> int \<Rightarrow> nat \<Rightarrow> 'g \<Rightarrow> real list \<times> 'g" where
  "beta_draws d a b 0 g = ([], g)"
| "beta_draws d a b (Suc k) g =
     (case d a b g of (x, g1) \<Rightarrow>
        (case beta_draws d a b k g1 of (xs, g2) \<Rightarrow> (x # xs, g2)))"

text \<open>
  \<^verbatim>\<open>np.random.beta(a, b, size=size)\<close>: numpy raises ValueError for a shape
  parameter that is not positive and for a negative size.
\<close>

definition np_random_beta ::
  "('g, 'r) ext \<Rightarrow> int \<Rightarrow> int \<Rightarrow> int \<Rightarrow> 'g \<Rightarrow> (error + npfloat list) \<times> 'g" where
  "np_random_beta ext a b size' g =
     (if a \<le> 0 \<or> b \<le> 0 \<or> size' < 0 then (Inl ValueError, g)
      else (case beta_draws (beta_variate ext) a b (nat size') g of
              (xs, g') \<Rightarrow> (Inr (map Finite xs), g')))"

subsection \<open>The sampler\<close>

text \<open>The loop of \<^verbatim>\<open>_generate_samples\<close> over \<^verbatim>\<open>df.iterrows()\<close>.\<close>

fun generate_samples_loop ::
  "('g, 'r) ext \<Rightarrow> int \<Rightarrow> summary \<Rightarrow> frame \<Rightarrow> 'g \<Rightarrow> (error + frame) \<times> 'g" where
  "generate_samples_loop ext num_samples [] samples g = (Inr samples, g)"
| "generate_samples_loop ext num_samples ((branch_label, r) # rest) samples g =
     (case np_random_beta ext
             (sint (num_conversions r + 1))
             (sint (num_enrollments r - num_conversions r + 1))
             num_samples g of
        (Inl e, g') \<Rightarrow> (Inl e, g')
      | (Inr arr, g') \<Rightarrow>
          (case frame_setitem samples branch_label arr of
             Inl e \<Rightarrow> (Inl e, g')
           | Inr samples' \<Rightarrow> generate_samples_loop ext num_samples rest samples' g'))"

definition generate_samples ::
  "('g, 'r) ext \<Rightarrow> summary \<Rightarrow> int \<Rightarrow> 'g \<Rightarrow> (error + frame) \<times> 'g" where
  "generate_samples ext df num_samples g =
     generate_samples_loop ext num_samples df
       (new_frame (arange num_samples) (map fst df)) g"

subsection \<open>The single-branch summary\<close>

text \<open>The probabilities \<^verbatim>\<open>ppfs\<close> and their \<^verbatim>\<open>str\<close>.\<close>

definition ppfs :: "real list" where
  "ppfs = [0.005, 0.05, 0.95, 0.995]"

definition ppfs_str :: "string list" where
  "ppfs_str = [''0.005'', ''0.05'', ''0.95'', ''0.995'']"

definition summarize_one_from_summary :: "('g, 'r) ext \<Rightarrow> srow \<Rightarrow> error + series" where
  "summarize_one_from_summary ext s =
     (let res = new_series one_res_index;
          res = series_setitem res ''mean''
                  (true_divide (num_conversions s) (num_enrollments s))
      in series_setitems res ppfs_str
           (map (beta_ppf ext (sint (num_conversions s + 1))
                   (sint (num_enrollments s - num_conversions s + 1))) ppfs))"

subsection \<open>The orchestrators on a summary table\<close>

text \<open>
  The result dictionary \<^verbatim>\<open>{'comparative': ..., 'individual': ...}\<close>. The comparative
  part of the two-branch result is the comparator's result with its \<^verbatim>\<open>name\<close>; that
  of the multi-branch result is a table with one row per branch, a row being empty
  (\<open>None\<close>) until it is assigned.
\<close>

record 'c analysis =
  comparative :: 'c
  individual :: "string \<rightharpoonup> series"

record 'r named_stats =
  stats_name :: string
  stats :: 'r

record 'r stats_table =
  table_name :: string
  table_columns :: "string list"
  table_rows :: "(string \<times> 'r option) list"

text \<open>\<^verbatim>\<open>comparative.loc[branch] = row\<close>.\<close>

definition table_set_row :: "'r stats_table \<Rightarrow> string \<Rightarrow> 'r \<Rightarrow> 'r stats_table" where
  "table_set_row t l v =
     t\<lparr>table_rows :=
        (if l \<in> set (map fst (table_rows t))
         then map (\<lambda>(k, x). if k = l then (k, Some v) else (k, x)) (table_rows t)
         else table_rows t @ [(l, Some v)])\<rparr>"

text \<open>
  \<^verbatim>\<open>list(set(df.index) - {control_label})\<close>. After the two assertions the set
  difference has at most one element, so the order of the list is immaterial.
\<close>

definition other_labels :: "summary \<Rightarrow> string \<Rightarrow> string list" where
  "other_labels df control_label = filter (\<lambda>l. l \<noteq> control_label) (remdups (map fst df))"

definition compare_two_from_summary ::
  "('g, 'r) ext \<Rightarrow> summary \<Rightarrow> string \<Rightarrow> string \<Rightarrow> int \<Rightarrow> 'g
     \<Rightarrow> (error + 'r named_stats analysis) \<times> 'g" where
  "compare_two_from_summary ext df control_label num_conversions_label num_samples g =
     (if length df \<noteq> 2 then (Inl AssertionError, g)
      else if control_label \<notin> set (map fst df) then (Inl AssertionError, g)
      else (case other_labels df control_label of
          [] \<Rightarrow> (Inl IndexError, g)
        | test_label # _ \<Rightarrow>
           (case generate_samples ext df num_samples g of
              (Inl e, g') \<Rightarrow> (Inl e, g')
            | (Inr samples, g') \<Rightarrow>
               (bind_err (frame_getitem samples test_label) (\<lambda>t.
                bind_err (frame_getitem samples control_label) (\<lambda>c.
                bind_err (loc df control_label) (\<lambda>rc.
                bind_err (summarize_one_from_summary ext rc) (\<lambda>sc.
                bind_err (loc df test_label) (\<lambda>rt.
                bind_err (summarize_one_from_summary ext rt) (\<lambda>st.
                  Inr \<lparr>comparative =
                         \<lparr>stats_name = num_conversions_label,
                          stats = compare_two_sample_sets ext t c\<rparr>,
                       individual = [control_label \<mapsto> sc, test_label \<mapsto> st]\<rparr>)))))),
                g'))))"

text \<open>The loop of \<^verbatim>\<open>compare_many_from_summary\<close> over \<^verbatim>\<open>df.index\<close>.\<close>

fun compare_many_loop ::
  "('g, 'r) ext \<Rightarrow> summary \<Rightarrow> frame \<Rightarrow> string list \<Rightarrow> 'r stats_table \<Rightarrow> (string \<rightharpoonup> series)
     \<Rightarrow> error + 'r stats_table analysis" where
  "compare_many_loop ext df samples [] ctab indiv =
     Inr \<lparr>comparative = ctab, individual = indiv\<rparr>"
| "compare_many_loop ext df samples (branch # rest) ctab indiv =
     bind_err (frame_getitem samples branch) (\<lambda>this_branch.
     bind_err (frame_drop samples branch) (\<lambda>others.
     bind_err (loc df branch) (\<lambda>row.
     bind_err (summarize_one_from_summary ext row) (\<lambda>s.
       compare_many_loop ext df samples rest
         (table_set_row ctab branch
            (compare_two_sample_sets ext this_branch (frame_max_columns others)))
         (indiv(branch \<mapsto> s))))))"

definition compare_many_from_summary ::
  "('g, 'r) ext \<Rightarrow> summary \<Rightarrow> string \<Rightarrow> int \<Rightarrow> 'g
     \<Rightarrow> (error + 'r stats_table analysis) \<times> 'g" where
  "compare_many_from_summary ext df num_conversions_label num_samples g =
     (case generate_samples ext df num_samples g of
        (Inl e, g') \<Rightarrow> (Inl e, g')
      | (Inr samples, g') \<Rightarrow>
          (compare_many_loop ext df samples (map fst df)
             \<lparr>table_name = num_conversions_label,
              table_columns = res_columns ext,
              table_rows = map (\<lambda>l. (l, None)) (map fst df)\<rparr>
             Map.empty,
           g'))"

subsection \<open>The entry points on raw data\<close>

text \<open>
  The experiment data: one row per test subject, with its \<^verbatim>\<open>branch\<close> and its value
  in the column \<^verbatim>\<open>col_label\<close> (booleans are the integers 0 and 1).
  \<^verbatim>\<open>groupby('branch')\<close> lists the branches once each in sorted order, with the number
  of rows and the sum of the values of each, stored as int64.
\<close>

type_synonym rawdata = "(string \<times> int) list"

definition groupby_agg :: "rawdata \<Rightarrow> summary" where
  "groupby_agg df =
     map (\<lambda>b. (b, \<lparr>num_enrollments = of_nat (length (filter (\<lambda>(l, v). l = b) df)),
                   num_conversions = of_int (sum_list (map snd (filter (\<lambda>(l, v). l = b) df)))\<rparr>))
       (sort (remdups (map fst df)))"

definition compare_two ::
  "('g, 'r) ext \<Rightarrow> rawdata \<Rightarrow> string option \<Rightarrow> string \<Rightarrow> int \<Rightarrow> 'g
     \<Rightarrow> (error + 'r named_stats analysis) \<times> 'g" where
  "compare_two ext df focus_label control_label num_samples g =
     (if \<not> list_all (\<lambda>(b, v). v = 0 \<or> v = 1) df then (Inl AssertionError, g)
      else let summary = groupby_agg df in
        if 2 < length summary then
          (case focus_label of
             None \<Rightarrow> (Inl AssertionError, g)
           | Some f \<Rightarrow>
              (case loc_labels ext summary [f, control_label] of
                 Inl e \<Rightarrow> (Inl e, g)
               | Inr summary' \<Rightarrow>
                   compare_two_from_summary ext summary' control_label
                     ''num_conversions'' num_samples g))
        else compare_two_from_summary ext summary control_label
               ''num_conversions'' num_samples g)"

text \<open>
  The truth value of a pandas Series, which \<^verbatim>\<open>assert\<close> asks for when its argument
  is a Series: pandas raises ValueError ("The truth value of a Series is ambiguous")
  whatever the Series holds.
\<close>

definition series_bool :: "bool list \<Rightarrow> error + bool" where
  "series_bool s = Inl ValueError"

text \<open>
  In \<^verbatim>\<open>compare_many\<close> the assertion reads
  \<^verbatim>\<open>assert (df[col_label] == 0) | (df[col_label] == 1).all()\<close>: the method call binds
  to the second comparison only, so the asserted value is the Series
  \<^verbatim>\<open>(df[col_label] == 0)\<close> or-ed elementwise with one boolean.
\<close>

definition compare_many ::
  "('g, 'r) ext \<Rightarrow> rawdata \<Rightarrow> int \<Rightarrow> 'g \<Rightarrow> (error + 'r stats_table analysis) \<times> 'g" where
  "compare_many ext df num_samples g =
     (case series_bool (map (\<lambda>(b, v). v = 0 \<or> list_all (\<lambda>(b', v'). v' = 1) df) df) of
        Inl e \<Rightarrow> (Inl e, g)
      | Inr ok \<Rightarrow>
          if \<not> ok then (Inl AssertionError, g)
          else compare_many_from_summary ext (groupby_agg df) ''num_conversions'' num_samples g)"

subsection \<open>Notions of the specification\<close>

text \<open>
  The specification's "best of the rest": \<open>ys\<close> is the per-row best of the rest of
  branch \<open>b\<close> in the sample table when it has one entry per row of the table and its
  \<open>i\<close>-th entry is the maximum of the values that the branches other than \<open>b\<close>
  have at row \<open>i\<close>: the value of one of them, and no smaller than the value of any of
  them.
\<close>

fun cell_le :: "npfloat \<Rightarrow> npfloat \<Rightarrow> bool" where
  "cell_le (Finite x) (Finite y) = (x \<le> y)"
| "cell_le x y = False"

definition is_rowwise_max_of_rest :: "frame \<Rightarrow> string \<Rightarrow> npfloat list \<Rightarrow> bool" where
  "is_rowwise_max_of_rest samples b ys \<longleftrightarrow>
     length ys = length (index samples) \<and>
     (\<forall>i < length ys.
        (\<exists>(l, c) \<in> set (columns samples). l \<noteq> b \<and> ys ! i = c ! i) \<and>
        (\<forall>(l, c) \<in> set (columns samples). l \<noteq> b \<longrightarrow> cell_le (c ! i) (ys ! i)))"

text \<open>
  The specification's draws for a row with \<open>c\<close> conversions and \<open>n\<close>
  enrollments, in the integers: the parameters are \<open>c + 1\<close> and \<open>n - c + 1\<close>.
  Every draw is made in the generator state that the draw before it left:
  \<open>next_state\<close> is the state after one draw, the \<open>i\<close>-th entry of
  \<open>posterior_draws\<close> is the draw made after \<open>i\<close> draws from state \<open>g\<close>, and
  \<open>state_after_draws\<close> is the state after \<open>num_samples\<close> draws.
\<close>

definition next_state :: "('g, 'r) ext \<Rightarrow> srow \<Rightarrow> 'g \<Rightarrow> 'g" where
  "next_state ext r g =
     snd (beta_variate ext (sint (num_conversions r) + 1)
            (sint (num_enrollments r) - sint (num_conversions r) + 1) g)"

definition posterior_draws :: "('g, 'r) ext \<Rightarrow> srow \<Rightarrow> int \<Rightarrow> 'g \<Rightarrow> npfloat list" where
  "posterior_draws ext r num_samples g =
     map (\<lambda>i. Finite (fst (beta_variate ext (sint (num_conversions r) + 1)
                           (sint (num_enrollments r) - sint (num_conversions r) + 1)
                           ((next_state ext r ^^ i) g))))
       [0..<nat num_samples]"

definition state_after_draws :: "('g, 'r) ext \<Rightarrow> srow \<Rightarrow> int \<Rightarrow> 'g \<Rightarrow> 'g" where
  "state_after_draws ext r num_samples g = (next_state ext r ^^ nat num_samples) g"

text \<open>
  The specification's sample table for a summary table: one column of draws per branch,
  in the table's order, the draws of a branch starting in the state that the draws of
  the branch before it left; with the state after the last draw.
\<close>

fun posterior_samples ::
  "('g, 'r) ext \<Rightarrow> int \<Rightarrow> summary \<Rightarrow> 'g \<Rightarrow> (string \<times> npfloat list) list \<times> 'g" where
  "posterior_samples ext num_samples [] g = ([], g)"
| "posterior_samples ext num_samples ((l, r) # rest) g =
     (case posterior_samples ext num_samples rest (state_after_draws ext r num_samples g) of
        (cols, g') \<Rightarrow> ((l, posterior_draws ext r num_samples g) # cols, g'))"

text \<open>The summary table's invariant: conversions between zero and the enrollments.\<close>

definition valid_counts :: "summary \<Rightarrow> bool" where
  "valid_counts df \<longleftrightarrow>
     list_all (\<lambda>(l, r). 0 \<le> sint (num_conversions r)
                       \<and> sint (num_conversions r) \<le> sint (num_enrollments r)) df"

text \<open>
  The Beta parameters of a row fit int64: \<open>c + 1\<close>, \<open>n - c\<close> and
  \<open>n - c + 1\<close> are int64 values, so the code's sums do not wrap around.
\<close>

definition parameters_fit :: "srow \<Rightarrow> bool" where
  "parameters_fit r \<longleftrightarrow>
     sint (num_conversions r) + 1 < 2 ^ 63
   \<and> - (2 ^ 63) \<le> sint (num_enrollments r) - sint (num_conversions r)
   \<and> sint (num_enrollments r) - sint (num_conversions r) + 1 < 2 ^ 63"

text \<open>
  A row that the sampler can draw for: valid counts and parameters that fit. A table
  fits when the parameters of all its rows do.
\<close>

definition row_ok :: "srow \<Rightarrow> bool" where
  "row_ok r \<longleftrightarrow> 0 \<le> sint (num_conversions r)
     \<and> sint (num_conversions r) \<le> sint (num_enrollments r) \<and> parameters_fit r"

definition fits_int64 :: "summary \<Rightarrow> bool" where
  "fits_int64 df \<longleftrightarrow> list_all (\<lambda>(l, r). parameters_fit r) df"

subsection \<open>Example inputs\<close>

text \<open>
  An instance of the library functions for evaluating the model on examples: the
  generator state counts the draws made, the percent-point function is NaN where a
  parameter is not positive (as scipy's is), and the comparator returns its two
  arguments.
\<close>

definition example_ext :: "(nat, npfloat list \<times> npfloat list) ext" where
  "example_ext =
     \<lparr>beta_variate = (\<lambda>a b g. (1 / (2 + real g), Suc g)),
      beta_ppf = (\<lambda>a b p. if 0 < a \<and> 0 < b then Finite p else NaN),
      compare_two_sample_sets = Pair,
      res_columns = [''rel_uplift_exp''],
      loc_labels = (\<lambda>df ls. bind_err (loc df (ls ! 0)) (\<lambda>r0.
                             bind_err (loc df (ls ! 1)) (\<lambda>r1.
                               Inr [(ls ! 0, r0), (ls ! 1, r1)])))\<rparr>"

definition scenario :: summary where
  "scenario = [(''control'', \<lparr>num_enrollments = 1000, num_conversions = 100\<rparr>),
               (''treatment'', \<lparr>num_enrollments = 1000, num_conversions = 120\<rparr>)]"

definition degenerate :: summary where
  "degenerate = [(''control'', \<lparr>num_enrollments = 100, num_conversions = 0\<rparr>),
                 (''treatment'', \<lparr>num_enrollments = 100, num_conversions = 0\<rparr>)]"

definition three_arms :: summary where
  "three_arms = [(''a'', \<lparr>num_enrollments = 10, num_conversions = 5\<rparr>),
                 (''b'', \<lparr>num_enrollments = 10, num_conversions = 6\<rparr>),
                 (''c'', \<lparr>num_enrollments = 10, num_conversions = 7\<rparr>)]"

definition excess_conversions :: summary where
  "excess_conversions = [(''control'', \<lparr>num_enrollments = 10, num_conversions = 5\<rparr>),
                         (''treatment'', \<lparr>num_enrollments = 3, num_conversions = 7\<rparr>)]"

definition int64_edge :: summary where
  "int64_edge = [(''control'', \<lparr>num_enrollments = 9223372036854775807, num_conversions = 0\<rparr>),
                 (''treatment'', \<lparr>num_enrollments = 1000, num_conversions = 120\<rparr>)]"

definition int64_edge_second :: summary where
  "int64_edge_second =
     [(''control'', \<lparr>num_enrollments = 1000, num_conversions = 100\<rparr>),
      (''treatment'', \<lparr>num_enrollments = 9223372036854775807, num_conversions = 0\<rparr>)]"

definition all_converted :: srow where
  "all_converted = \<lparr>num_enrollments = 9223372036854775807,
                      num_conversions = 9223372036854775807\<rparr>"

definition control_twice :: summary where
  "control_twice = [(''control'', \<lparr>num_enrollments = 10, num_conversions = 5\<rparr>),
                    (''control'', \<lparr>num_enrollments = 10, num_conversions = 6\<rparr>)]"

definition subjects :: rawdata where
  "subjects = [(''treatment'', 1), (''control'', 0), (''treatment'', 0), (''control'', 1)]"

definition subjects_nonbinary :: rawdata where
  "subjects_nonbinary = [(''treatment'', 2), (''control'', 0)]"

definition subjects_three :: rawdata where
  "subjects_three = [(''b'', 1), (''a'', 0), (''c'', 0)]"

section \<open>Auxiliary lemmas\<close>

subsection \<open>int64 arithmetic\<close>

lemma sint_add_one:
  fixes c :: int64
  assumes "sint c + 1 < 2 ^ 63"
  shows "sint (c + 1) = sint c + 1"
proof -
  have "- (2 ^ 63) \<le> sint c" using sint_ge [of c] by simp
  with assms show ?thesis
    by (simp add: sint_word_ariths signed_take_bit_int_eq_self)
qed

lemma sint_diff:
  fixes n c :: int64
  assumes "- (2 ^ 63) \<le> sint n - sint c" "sint n - sint c < 2 ^ 63"
  shows "sint (n - c) = sint n - sint c"
  using assms by (simp add: sint_word_ariths signed_take_bit_int_eq_self)

lemma sint_upper: "sint (x :: int64) < 2 ^ 63"
  using sint_lt [of x] by simp

lemma parameters_fit_sint:
  assumes "parameters_fit r"
  shows "sint (num_conversions r + 1) = sint (num_conversions r) + 1"
    and "sint (num_enrollments r - num_conversions r + 1)
           = sint (num_enrollments r) - sint (num_conversions r) + 1"
proof -
  from assms show "sint (num_conversions r + 1) = sint (num_conversions r) + 1"
    by (simp add: parameters_fit_def sint_add_one)
  from assms have "sint (num_enrollments r - num_conversions r)
      = sint (num_enrollments r) - sint (num_conversions r)"
    by (intro sint_diff) (simp_all add: parameters_fit_def)
  with assms show "sint (num_enrollments r - num_conversions r + 1)
           = sint (num_enrollments r) - sint (num_conversions r) + 1"
    by (simp add: parameters_fit_def sint_add_one)
qed

text \<open>A row with fewer enrollments than conversions has a second parameter that is not positive.\<close>

lemma excess_not_positive:
  assumes "0 \<le> sint (num_enrollments r)" "sint (num_enrollments r) < sint (num_conversions r)"
  shows "sint (num_enrollments r - num_conversions r + 1) \<le> 0"
proof -
  have up: "sint (num_conversions r) < 2 ^ 63" by (rule sint_upper)
  from assms up have d: "sint (num_enrollments r - num_conversions r)
      = sint (num_enrollments r) - sint (num_conversions r)"
    by (intro sint_diff) simp_all
  with assms have "sint (num_enrollments r - num_conversions r) + 1 < 2 ^ 63" by simp
  from sint_add_one [OF this] d assms show ?thesis by simp
qed

subsection \<open>The draws\<close>

lemma beta_draws_length: "beta_draws d a b k g = (xs, g') \<Longrightarrow> length xs = k"
  by (induction k arbitrary: g xs g') (auto split: prod.splits)

text \<open>The draws of \<open>beta_draws\<close>, one by one.\<close>

lemma beta_draws_funpow:
  "beta_draws d a b k g =
     (map (\<lambda>i. fst (d a b (((\<lambda>s. snd (d a b s)) ^^ i) g))) [0..<k],
      ((\<lambda>s. snd (d a b s)) ^^ k) g)"
proof -
  define f where "f = (\<lambda>s. snd (d a b s))"
  have "beta_draws d a b k g = (map (\<lambda>i. fst (d a b ((f ^^ i) g))) [0..<k], (f ^^ k) g)"
  proof (induction k arbitrary: g)
    case 0
    show ?case by simp
  next
    case (Suc k)
    obtain x g1 where step: "d a b g = (x, g1)" by (cases "d a b g")
    then have g1: "g1 = f g" by (simp add: f_def)
    have shift: "(f ^^ i) g1 = (f ^^ Suc i) g" for i
      unfolding g1 by (simp add: funpow_swap1)
    have "map (\<lambda>i. fst (d a b ((f ^^ i) g))) [0..<Suc k]
        = fst (d a b g) # map (\<lambda>i. fst (d a b ((f ^^ Suc i) g))) [0..<k]"
      by (simp only: map_upt_Suc) simp
    also have "\<dots> = x # map (\<lambda>i. fst (d a b ((f ^^ i) g1))) [0..<k]"
      using step by (simp only: shift) simp
    finally have m: "map (\<lambda>i. fst (d a b ((f ^^ i) g))) [0..<Suc k]
        = x # map (\<lambda>i. fst (d a b ((f ^^ i) g1))) [0..<k]" .
    have "beta_draws d a b (Suc k) g
        = (x # map (\<lambda>i. fst (d a b ((f ^^ i) g1))) [0..<k], (f ^^ k) g1)"
      using step Suc.IH [of g1] by simp
    with m shift [of k] show ?case by (simp only:)
  qed
  then show ?thesis by (simp only: f_def)
qed

lemma length_posterior_draws: "length (posterior_draws ext r ns g) = nat ns"
  by (simp add: posterior_draws_def)

lemma posterior_draws_finite:
  "\<exists>xs. posterior_draws ext r ns g = map Finite xs \<and> length xs = nat ns"
proof -
  let ?xs = "map (\<lambda>i. fst (beta_variate ext (sint (num_conversions r) + 1)
                           (sint (num_enrollments r) - sint (num_conversions r) + 1)
                           ((next_state ext r ^^ i) g))) [0..<nat ns]"
  have "posterior_draws ext r ns g = map Finite ?xs"
    by (simp add: posterior_draws_def comp_def)
  then show ?thesis by (intro exI [of _ ?xs]) simp
qed

text \<open>numpy's call on a row whose counts are valid and whose parameters fit.\<close>

lemma np_random_beta_ok:
  assumes "0 \<le> sint (num_conversions r)"
    and "sint (num_conversions r) \<le> sint (num_enrollments r)"
    and "parameters_fit r" and "0 \<le> ns"
  shows "np_random_beta ext (sint (num_conversions r + 1))
            (sint (num_enrollments r - num_conversions r + 1)) ns g
           = (Inr (posterior_draws ext r ns g), state_after_draws ext r ns g)"
proof -
  let ?a = "sint (num_conversions r) + 1"
  let ?b = "sint (num_enrollments r) - sint (num_conversions r) + 1"
  have nxt: "next_state ext r = (\<lambda>s. snd (beta_variate ext ?a ?b s))"
    by (rule ext) (simp add: next_state_def)
  from assms(1,2) have "0 < ?a" "0 < ?b" by simp_all
  then show ?thesis
    using assms(4)
    by (simp add: np_random_beta_def parameters_fit_sint [OF assms(3)] beta_draws_funpow
        posterior_draws_def state_after_draws_def nxt comp_def)
qed

lemma np_random_beta_Inl:
  "np_random_beta ext a b n g = (Inl e, g') \<Longrightarrow> e = ValueError"
  by (simp add: np_random_beta_def split: if_splits prod.splits)

lemma np_random_beta_Inr:
  "np_random_beta ext a b n g = (Inr arr, g') \<Longrightarrow> 0 < a \<and> 0 < b \<and> 0 \<le> n"
  by (simp add: np_random_beta_def split: if_splits prod.splits)

lemma fst_update_cols:
  "map fst (map (\<lambda>(k, c). if k = l then (k, v) else (k, c)) cols) = map fst cols"
  by (induction cols) (simp_all add: case_prod_beta)

lemma snd_update_cols:
  "set (map snd (map (\<lambda>(k, c). if k = l then (k, v) else (k, c)) cols))
     \<subseteq> insert v (set (map snd cols))"
  by (induction cols) (simp_all add: case_prod_beta, blast)

lemma map_of_update_other:
  "x \<noteq> l \<Longrightarrow> map_of (map (\<lambda>(k, c). if k = l then (k, v) else (k, c)) cols) x = map_of cols x"
  by (induction cols) (simp_all add: case_prod_beta)

lemma map_of_update_same:
  "l \<in> set (map fst cols) \<Longrightarrow>
     map_of (map (\<lambda>(k, c). if k = l then (k, v) else (k, c)) cols) l = Some v"
  by (induction cols) (simp_all add: case_prod_beta, blast)

lemma map_of_update_cols:
  "l \<in> set (map fst cols) \<Longrightarrow>
   map_of (map (\<lambda>(k, c). if k = l then (k, v) else (k, c)) cols) x =
     (if x = l then Some v else map_of cols x)"
  using map_of_update_other [of x l v cols] map_of_update_same [of l cols v] by simp

lemma frame_setitem_ok:
  assumes "length arr = length (index f)" "l \<in> set (map fst (columns f))"
  shows "\<exists>f1. frame_setitem f l arr = Inr f1 \<and> index f1 = index f
           \<and> map fst (columns f1) = map fst (columns f)
           \<and> set (map snd (columns f1)) \<subseteq> insert arr (set (map snd (columns f)))
           \<and> (\<forall>x. map_of (columns f1) x = (if x = l then Some arr else map_of (columns f) x))"
proof -
  let ?f1 = "f\<lparr>columns := map (\<lambda>(k, c). if k = l then (k, arr) else (k, c)) (columns f)\<rparr>"
  have "frame_setitem f l arr = Inr ?f1"
    using assms by (simp add: frame_setitem_def)
  moreover have "index ?f1 = index f" by simp
  moreover have "map fst (columns ?f1) = map fst (columns f)"
    by (simp del: map_map add: fst_update_cols)
  moreover have "set (map snd (columns ?f1)) \<subseteq> insert arr (set (map snd (columns f)))"
    using snd_update_cols [of l arr "columns f"] by simp
  moreover have "\<forall>x. map_of (columns ?f1) x = (if x = l then Some arr else map_of (columns f) x)"
    using map_of_update_cols [OF assms(2)] by simp
  ultimately show ?thesis by blast
qed

lemma frame_setitem_Inl: "frame_setitem f l arr = Inl e \<Longrightarrow> e = ValueError"
  by (simp add: frame_setitem_def split: if_splits)

lemma frame_setitem_Inr: "frame_setitem f l arr = Inr f1 \<Longrightarrow> length arr = length (index f)"
  by (simp add: frame_setitem_def split: if_splits)

lemma np_random_beta_row_ok:
  assumes "row_ok r" "0 \<le> ns"
  shows "np_random_beta ext (sint (num_conversions r + 1))
            (sint (num_enrollments r - num_conversions r + 1)) ns g
           = (Inr (posterior_draws ext r ns g), state_after_draws ext r ns g)"
  using assms np_random_beta_ok [of r ns ext g] by (simp add: row_ok_def)

lemma fst_posterior_samples: "map fst (fst (posterior_samples ext ns rows g)) = map fst rows"
proof (induction rows arbitrary: g)
  case Nil
  show ?case by simp
next
  case (Cons p rows)
  obtain l r where p: "p = (l, r)" by (cases p)
  obtain cols g2 where ps: "posterior_samples ext ns rows (state_after_draws ext r ns g) = (cols, g2)"
    by (cases "posterior_samples ext ns rows (state_after_draws ext r ns g)")
  with Cons.IH [of "state_after_draws ext r ns g"] have "map fst cols = map fst rows" by simp
  with p ps show ?case by simp
qed

text \<open>The sampler's loop on rows it gets through.\<close>

lemma generate_samples_loop_ok:
  assumes "0 \<le> ns" "length (index f) = nat ns"
    and "\<forall>(l, r) \<in> set rows. row_ok r"
    and "set (map fst rows) \<subseteq> set (map fst (columns f))"
  shows "\<exists>f'. generate_samples_loop ext ns rows f g
                 = (Inr f', snd (posterior_samples ext ns rows g))
           \<and> index f' = index f
           \<and> map fst (columns f') = map fst (columns f)
           \<and> (\<forall>l. l \<notin> set (map fst rows) \<longrightarrow> map_of (columns f') l = map_of (columns f) l)
           \<and> (distinct (map fst rows) \<longrightarrow>
                (\<forall>l \<in> set (map fst rows).
                   map_of (columns f') l = map_of (fst (posterior_samples ext ns rows g)) l))"
  using assms
proof (induction rows arbitrary: f g)
  case Nil
  then show ?case by simp
next
  case (Cons p rest)
  obtain l r where p: "p = (l, r)" by (cases p)
  let ?arr = "posterior_draws ext r ns g"
  let ?g1 = "state_after_draws ext r ns g"
  obtain cols g2 where ps: "posterior_samples ext ns rest ?g1 = (cols, g2)"
    by (cases "posterior_samples ext ns rest ?g1")
  have psc: "posterior_samples ext ns (p # rest) g = ((l, ?arr) # cols, g2)"
    using p ps by simp
  from Cons.prems p have ok: "row_ok r" by auto
  have beta: "np_random_beta ext (sint (num_conversions r + 1))
            (sint (num_enrollments r - num_conversions r + 1)) ns g = (Inr ?arr, ?g1)"
    by (rule np_random_beta_row_ok [OF ok Cons.prems(1)])
  have len: "length ?arr = length (index f)"
    using Cons.prems(2) by (simp add: length_posterior_draws)
  from Cons.prems(4) p have lin: "l \<in> set (map fst (columns f))" by auto
  from frame_setitem_ok [OF len lin] obtain f1 where
    f1: "frame_setitem f l ?arr = Inr f1" "index f1 = index f"
        "map fst (columns f1) = map fst (columns f)"
        "\<forall>x. map_of (columns f1) x = (if x = l then Some ?arr else map_of (columns f) x)"
    by blast
  have prems1: "length (index f1) = nat ns"
    "\<forall>(l, r) \<in> set rest. row_ok r"
    "set (map fst rest) \<subseteq> set (map fst (columns f1))"
    using Cons.prems f1 by auto
  from Cons.IH [OF Cons.prems(1) prems1, of ?g1] ps obtain f' where
    ih: "generate_samples_loop ext ns rest f1 ?g1 = (Inr f', g2)"
        "index f' = index f1" "map fst (columns f') = map fst (columns f1)"
        "\<forall>l. l \<notin> set (map fst rest) \<longrightarrow> map_of (columns f') l = map_of (columns f1) l"
        "distinct (map fst rest) \<longrightarrow>
           (\<forall>l \<in> set (map fst rest). map_of (columns f') l = map_of cols l)"
    by auto
  have run: "generate_samples_loop ext ns (p # rest) f g
      = (Inr f', snd (posterior_samples ext ns (p # rest) g))"
    using p beta f1(1) ih(1) psc by simp
  have frame: "\<forall>x. x \<notin> set (map fst (p # rest)) \<longrightarrow> map_of (columns f') x = map_of (columns f) x"
    using ih(4) f1(4) p by auto
  have draws: "distinct (map fst (p # rest)) \<longrightarrow>
           (\<forall>x \<in> set (map fst (p # rest)).
              map_of (columns f') x = map_of (fst (posterior_samples ext ns (p # rest) g)) x)"
  proof (intro impI ballI)
    fix x
    assume d: "distinct (map fst (p # rest))" and x: "x \<in> set (map fst (p # rest))"
    from d p have notin: "l \<notin> set (map fst rest)" by simp
    show "map_of (columns f') x = map_of (fst (posterior_samples ext ns (p # rest) g)) x"
    proof (cases "x = l")
      case True
      with notin ih(4) f1(4) psc show ?thesis by simp
    next
      case False
      with x p have xin: "x \<in> set (map fst rest)" by auto
      from d have "distinct (map fst rest)" by simp
      with ih(5) xin have "map_of (columns f') x = map_of cols x" by blast
      with False psc show ?thesis by simp
    qed
  qed
  show ?case
  proof (intro exI conjI)
    show "generate_samples_loop ext ns (p # rest) f g
      = (Inr f', snd (posterior_samples ext ns (p # rest) g))" by (rule run)
    show "index f' = index f" using ih(2) f1(2) by simp
    show "map fst (columns f') = map fst (columns f)" using ih(3) f1(3) by simp
    show "\<forall>l. l \<notin> set (map fst (p # rest)) \<longrightarrow> map_of (columns f') l = map_of (columns f) l"
      by (rule frame)
    show "distinct (map fst (p # rest)) \<longrightarrow>
           (\<forall>x \<in> set (map fst (p # rest)).
              map_of (columns f') x = map_of (fst (posterior_samples ext ns (p # rest) g)) x)"
      by (rule draws)
  qed
qed

text \<open>Two association lists with the same distinct keys and the same values are equal.\<close>

lemma assoc_list_eqI:
  assumes "map fst xs = map fst ys" "distinct (map fst xs)"
    and "\<forall>k \<in> set (map fst xs). map_of xs k = map_of ys k"
  shows "xs = ys"
  using assms
proof (induction xs arbitrary: ys)
  case Nil
  then show ?case by simp
next
  case (Cons x xs)
  from Cons.prems(1) obtain y ys' where ys: "ys = y # ys'" "fst x = fst y" "map fst xs = map fst ys'"
    by (cases ys) auto
  from Cons.prems(3) ys have "snd x = snd y" by (auto simp: fun_upd_def)
  with ys(2) have xy: "x = y" by (simp add: prod_eq_iff)
  have "\<forall>k \<in> set (map fst xs). map_of xs k = map_of ys' k"
  proof
    fix k assume k: "k \<in> set (map fst xs)"
    with Cons.prems(2) have "k \<noteq> fst x" by force
    with Cons.prems(3) k ys xy show "map_of xs k = map_of ys' k" by (auto simp: fun_upd_def)
  qed
  with Cons.IH [OF ys(3)] Cons.prems(2) have "xs = ys'" by simp
  with xy ys show ?case by simp
qed

text \<open>What a returned sample table looks like, whatever the counts.\<close>

lemma generate_samples_loop_Inr:
  assumes "generate_samples_loop ext ns rows f g = (Inr f', g')"
    and "set (map fst rows) \<subseteq> set (map fst (columns f))"
    and "\<forall>c \<in> set (map snd (columns f)). length c = length (index f)"
  shows "index f' = index f \<and> map fst (columns f') = map fst (columns f)
           \<and> (\<forall>c \<in> set (map snd (columns f')). length c = length (index f))"
  using assms
proof (induction rows arbitrary: f g)
  case Nil
  then show ?case by simp
next
  case (Cons p rest)
  obtain l r where p: "p = (l, r)" by (cases p)
  from Cons.prems(1) p obtain arr g1 f1 where
    beta: "np_random_beta ext (sint (num_conversions r + 1))
            (sint (num_enrollments r - num_conversions r + 1)) ns g = (Inr arr, g1)"
    and set1: "frame_setitem f l arr = Inr f1"
    and rest: "generate_samples_loop ext ns rest f1 g1 = (Inr f', g')"
    by (auto split: prod.splits sum.splits)
  from Cons.prems(2) p have lin: "l \<in> set (map fst (columns f))" by auto
  from frame_setitem_ok [OF frame_setitem_Inr [OF set1] lin] set1 have
    f1: "index f1 = index f" "map fst (columns f1) = map fst (columns f)"
        "set (map snd (columns f1)) \<subseteq> insert arr (set (map snd (columns f)))"
    by auto
  have keys1: "set (map fst rest) \<subseteq> set (map fst (columns f1))"
    using Cons.prems(2) f1(2) by auto
  have lens1: "\<forall>c \<in> set (map snd (columns f1)). length c = length (index f1)"
  proof
    fix c assume "c \<in> set (map snd (columns f1))"
    with f1(3) have "c = arr \<or> c \<in> set (map snd (columns f))" by blast
    then show "length c = length (index f1)"
      using Cons.prems(3) frame_setitem_Inr [OF set1] f1(1) by auto
  qed
  from Cons.IH [OF rest keys1 lens1] show ?case using f1(1,2) by simp
qed

text \<open>How the sampler's loop fails.\<close>

lemma generate_samples_loop_Inl:
  "generate_samples_loop ext ns rows f g = (Inl e, g') \<Longrightarrow> e = ValueError"
proof (induction rows arbitrary: f g)
  case Nil
  then show ?case by simp
next
  case (Cons p rest)
  obtain l r where p: "p = (l, r)" by (cases p)
  from Cons.prems p show ?case
    by (auto split: prod.splits sum.splits
        dest: np_random_beta_Inl frame_setitem_Inl Cons.IH)
qed

lemma generate_samples_loop_fails:
  assumes "(\<exists>(l, r) \<in> set rows. 0 \<le> sint (num_enrollments r)
               \<and> sint (num_enrollments r) < sint (num_conversions r))
           \<or> (ns < 0 \<and> rows \<noteq> [])"
  shows "fst (generate_samples_loop ext ns rows f g) = Inl ValueError"
  using assms
proof (induction rows arbitrary: f g)
  case Nil
  then show ?case by simp
next
  case (Cons p rest)
  obtain l r where p: "p = (l, r)" by (cases p)
  let ?b = "np_random_beta ext (sint (num_conversions r + 1))
            (sint (num_enrollments r - num_conversions r + 1)) ns g"
  obtain res g1 where b: "?b = (res, g1)" by (cases ?b)
  show ?case
  proof (cases res)
    case (Inl e)
    with b p np_random_beta_Inl [of ext "sint (num_conversions r + 1)"
        "sint (num_enrollments r - num_conversions r + 1)" ns g e g1] show ?thesis by simp
  next
    case (Inr arr)
    with b np_random_beta_Inr [of ext "sint (num_conversions r + 1)"
        "sint (num_enrollments r - num_conversions r + 1)" ns g arr g1]
    have ok: "0 < sint (num_enrollments r - num_conversions r + 1)" "0 \<le> ns" by simp_all
    have "\<not> (0 \<le> sint (num_enrollments r) \<and> sint (num_enrollments r) < sint (num_conversions r))"
      using ok(1) excess_not_positive [of r] by auto
    with Cons.prems p ok(2)
    have bad: "(\<exists>(l, r) \<in> set rest. 0 \<le> sint (num_enrollments r)
               \<and> sint (num_enrollments r) < sint (num_conversions r))
           \<or> (ns < 0 \<and> rest \<noteq> [])"
      by auto
    show ?thesis
    proof (cases "frame_setitem f l arr")
      case (Inl e)
      with b Inr p frame_setitem_Inl [of f l arr e] show ?thesis by simp
    next
      case (Inr f1)
      with b \<open>res = Inr arr\<close> p Cons.IH [OF bad, of f1 g1] show ?thesis by simp
    qed
  qed
qed

text \<open>The loop on a table is the loop on its first rows, then on the rest.\<close>

lemma generate_samples_loop_append:
  "generate_samples_loop ext ns (pre @ rest) f g =
     (case generate_samples_loop ext ns pre f g of
        (Inl e, g') \<Rightarrow> (Inl e, g')
      | (Inr f', g') \<Rightarrow> generate_samples_loop ext ns rest f' g')"
proof (induction pre arbitrary: f g)
  case Nil
  show ?case by simp
next
  case (Cons p pre)
  obtain l r where p: "p = (l, r)" by (cases p)
  show ?case using p Cons.IH by (simp split: prod.splits sum.splits)
qed

text \<open>
  The failure at the first row with fewer enrollments than conversions: the draws of
  the rows before it have been made.
\<close>

lemma generate_samples_loop_fails_at:
  assumes "0 \<le> ns" "length (index f) = nat ns"
    and "\<forall>(l, r) \<in> set pre. row_ok r"
    and "set (map fst (pre @ (l, r) # post)) \<subseteq> set (map fst (columns f))"
    and "0 \<le> sint (num_enrollments r)" "sint (num_enrollments r) < sint (num_conversions r)"
  shows "generate_samples_loop ext ns (pre @ (l, r) # post) f g
           = (Inl ValueError, snd (posterior_samples ext ns pre g))"
proof -
  from assms(4) have keys: "set (map fst pre) \<subseteq> set (map fst (columns f))" by auto
  from generate_samples_loop_ok [OF assms(1,2,3) keys, of ext g] obtain f' where
    pre: "generate_samples_loop ext ns pre f g = (Inr f', snd (posterior_samples ext ns pre g))"
    by blast
  have "sint (num_enrollments r - num_conversions r + 1) \<le> 0"
    by (rule excess_not_positive [OF assms(5,6)])
  then have "np_random_beta ext (sint (num_conversions r + 1))
            (sint (num_enrollments r - num_conversions r + 1)) ns g' = (Inl ValueError, g')" for g'
    by (simp add: np_random_beta_def)
  then show ?thesis
    using pre by (simp add: generate_samples_loop_append)
qed

lemma new_frame_props:
  "index (new_frame idx ls) = idx" "map fst (columns (new_frame idx ls)) = ls"
  "\<forall>c \<in> set (map snd (columns (new_frame idx ls))). length c = length idx"
  by (simp_all add: new_frame_def comp_def)

lemma rows_ok:
  assumes "valid_counts df" "fits_int64 df"
  shows "\<forall>(l, r) \<in> set df. row_ok r"
  using assms by (auto simp: valid_counts_def fits_int64_def row_ok_def list_all_iff)

text \<open>The sampler on a table whose rows it can draw for.\<close>

lemma generate_samples_ok:
  assumes "0 \<le> ns" and "\<forall>(l, r) \<in> set df. row_ok r"
  shows "\<exists>samples. generate_samples ext df ns g
                     = (Inr samples, snd (posterior_samples ext ns df g))
           \<and> index samples = arange ns
           \<and> (distinct (map fst df) \<longrightarrow> columns samples = fst (posterior_samples ext ns df g))"
proof -
  let ?f = "new_frame (arange ns) (map fst df)"
  have len: "length (index ?f) = nat ns" by (simp add: new_frame_def arange_def)
  have keys: "set (map fst df) \<subseteq> set (map fst (columns ?f))"
    by (simp add: new_frame_props(2) del: set_map)
  from generate_samples_loop_ok [OF assms(1) len assms(2) keys, of ext g] obtain f' where
    run: "generate_samples_loop ext ns df ?f g = (Inr f', snd (posterior_samples ext ns df g))"
    and idx: "index f' = index ?f"
    and fsts: "map fst (columns f') = map fst (columns ?f)"
    and draws: "distinct (map fst df) \<longrightarrow>
                (\<forall>l \<in> set (map fst df).
                   map_of (columns f') l = map_of (fst (posterior_samples ext ns df g)) l)"
    by blast
  have k: "map fst (columns f') = map fst df" using fsts by (simp add: new_frame_props(2))
  have "columns f' = fst (posterior_samples ext ns df g)" if d: "distinct (map fst df)"
  proof (rule assoc_list_eqI)
    show "map fst (columns f') = map fst (fst (posterior_samples ext ns df g))"
      using k by (simp add: fst_posterior_samples)
    show "distinct (map fst (columns f'))" using k d by simp
    show "\<forall>x \<in> set (map fst (columns f')).
            map_of (columns f') x = map_of (fst (posterior_samples ext ns df g)) x"
      using draws d k by simp
  qed
  with run idx show ?thesis
    by (auto simp: generate_samples_def new_frame_props(1))
qed

lemma generate_samples_Inr:
  assumes "generate_samples ext df ns g = (Inr samples, g')"
  shows "index samples = arange ns" "map fst (columns samples) = map fst df"
    "\<forall>c \<in> set (map snd (columns samples)). length c = length (arange ns)"
proof -
  let ?f = "new_frame (arange ns) (map fst df)"
  have keys: "set (map fst df) \<subseteq> set (map fst (columns ?f))"
    by (simp add: new_frame_props(2) del: set_map)
  have lens: "\<forall>c \<in> set (map snd (columns ?f)). length c = length (index ?f)"
    using new_frame_props(1,3) [of "arange ns" "map fst df"] by simp
  from assms have run: "generate_samples_loop ext ns df ?f g = (Inr samples, g')"
    by (simp add: generate_samples_def)
  from generate_samples_loop_Inr [OF run keys lens]
  show "index samples = arange ns" "map fst (columns samples) = map fst df"
    "\<forall>c \<in> set (map snd (columns samples)). length c = length (arange ns)"
    by (simp_all add: new_frame_props del: set_map)
qed

lemma generate_samples_Inl:
  "generate_samples ext df ns g = (Inl e, g') \<Longrightarrow> e = ValueError"
  unfolding generate_samples_def by (rule generate_samples_loop_Inl)

lemma generate_samples_fails:
  assumes "(\<exists>(l, r) \<in> set df. 0 \<le> sint (num_enrollments r)
               \<and> sint (num_enrollments r) < sint (num_conversions r))
           \<or> (ns < 0 \<and> df \<noteq> [])"
  shows "fst (generate_samples ext df ns g) = Inl ValueError"
  unfolding generate_samples_def using assms by (rule generate_samples_loop_fails)

lemma generate_samples_fails_at:
  assumes "0 \<le> ns" and "\<forall>(l, r) \<in> set pre. row_ok r"
    and "0 \<le> sint (num_enrollments r)" "sint (num_enrollments r) < sint (num_conversions r)"
  shows "generate_samples ext (pre @ (l, r) # post) ns g
           = (Inl ValueError, snd (posterior_samples ext ns pre g))"
proof -
  let ?df = "pre @ (l, r) # post"
  let ?f = "new_frame (arange ns) (map fst ?df)"
  have len: "length (index ?f) = nat ns" by (simp add: new_frame_def arange_def)
  have keys: "set (map fst ?df) \<subseteq> set (map fst (columns ?f))"
    by (simp only: new_frame_props(2) subset_refl)
  from generate_samples_loop_fails_at [OF assms(1) len assms(2) keys assms(3,4)]
  show ?thesis by (simp only: generate_samples_def)
qed

lemma generate_samples_negative:
  assumes "ns < 0" "df \<noteq> []"
  shows "generate_samples ext df ns g = (Inl ValueError, g)"
proof -
  from assms(2) obtain l r rest where df: "df = (l, r) # rest"
    by (cases df) auto
  with assms(1) show ?thesis
    by (simp add: generate_samples_def np_random_beta_def)
qed

text \<open>The summarizer returns on every row.\<close>

lemma summarize_one_from_summary_eq:
  "summarize_one_from_summary ext s =
     Inr [(''mean'', true_divide (num_conversions s) (num_enrollments s)),
          (''0.005'', beta_ppf ext (sint (num_conversions s + 1))
                        (sint (num_enrollments s - num_conversions s + 1)) 0.005),
          (''0.05'', beta_ppf ext (sint (num_conversions s + 1))
                        (sint (num_enrollments s - num_conversions s + 1)) 0.05),
          (''0.95'', beta_ppf ext (sint (num_conversions s + 1))
                        (sint (num_enrollments s - num_conversions s + 1)) 0.95),
          (''0.995'', beta_ppf ext (sint (num_conversions s + 1))
                        (sint (num_enrollments s - num_conversions s + 1)) 0.995)]"
  by (simp add: summarize_one_from_summary_def one_res_index_def new_series_def series_setitem_def
      series_setitems_def ppfs_def ppfs_str_def)

lemma frame_getitem_ok:
  "l \<in> set (map fst (columns f)) \<Longrightarrow> \<exists>c. frame_getitem f l = Inr c \<and> (l, c) \<in> set (columns f)"
  by (cases "map_of (columns f) l") (auto simp: frame_getitem_def map_of_eq_None_iff dest: map_of_SomeD)

lemma loc_ok:
  "l \<in> set (map fst df) \<Longrightarrow> \<exists>r. loc df l = Inr r \<and> (l, r) \<in> set df"
  by (cases "map_of df l") (auto simp: loc_def map_of_eq_None_iff dest: map_of_SomeD)

lemma table_set_row_props:
  assumes "l \<in> set (map fst (table_rows t))"
  shows "map fst (table_rows (table_set_row t l v)) = map fst (table_rows t)"
    and "map_of (table_rows (table_set_row t l v)) x =
           (if x = l then Some (Some v) else map_of (table_rows t) x)"
    and "table_name (table_set_row t l v) = table_name t"
    and "table_columns (table_set_row t l v) = table_columns t"
proof -
  show "map fst (table_rows (table_set_row t l v)) = map fst (table_rows t)"
    using assms fst_update_cols [of l "Some v" "table_rows t"]
    by (simp add: table_set_row_def del: map_map)
  show "map_of (table_rows (table_set_row t l v)) x =
           (if x = l then Some (Some v) else map_of (table_rows t) x)"
    using assms map_of_update_cols [OF assms, of "Some v" x]
    by (simp add: table_set_row_def)
  show "table_name (table_set_row t l v) = table_name t"
    "table_columns (table_set_row t l v) = table_columns t"
    by (simp_all add: table_set_row_def)
qed

text \<open>The loop of the multi-branch orchestrator.\<close>

lemma compare_many_loop_ok:
  assumes "set bs \<subseteq> set (map fst (columns samples))"
    and "set bs \<subseteq> set (map fst df)"
    and "set bs \<subseteq> set (map fst (table_rows ctab))"
  shows "\<exists>res. compare_many_loop ext df samples bs ctab indiv = Inr res
     \<and> dom (individual res) = dom indiv \<union> set bs
     \<and> map fst (table_rows (comparative res)) = map fst (table_rows ctab)
     \<and> (\<forall>b. b \<notin> set bs \<longrightarrow>
           map_of (table_rows (comparative res)) b = map_of (table_rows ctab) b)
     \<and> (\<forall>b \<in> set bs. \<forall>this others.
           frame_getitem samples b = Inr this \<longrightarrow> frame_drop samples b = Inr others \<longrightarrow>
           map_of (table_rows (comparative res)) b =
             Some (Some (compare_two_sample_sets ext this (frame_max_columns others))))
     \<and> (\<forall>b. b \<notin> set bs \<longrightarrow> individual res b = indiv b)
     \<and> (\<forall>b \<in> set bs. \<forall>row s. loc df b = Inr row \<longrightarrow>
           summarize_one_from_summary ext row = Inr s \<longrightarrow> individual res b = Some s)"
  using assms
proof (induction bs arbitrary: ctab indiv)
  case Nil
  then show ?case by simp
next
  case (Cons b rest)
  from Cons.prems(1) frame_getitem_ok [of b samples] obtain col where
    get: "frame_getitem samples b = Inr col" by auto
  from Cons.prems(1) have drop: "frame_drop samples b =
      Inr (samples\<lparr>columns := filter (\<lambda>(k, c). k \<noteq> b) (columns samples)\<rparr>)"
    by (simp add: frame_drop_def)
  let ?others = "samples\<lparr>columns := filter (\<lambda>(k, c). k \<noteq> b) (columns samples)\<rparr>"
  from Cons.prems(2) loc_ok [of b df] obtain row where row: "loc df b = Inr row" by auto
  obtain s where s: "summarize_one_from_summary ext row = Inr s"
    using summarize_one_from_summary_eq by blast
  let ?v = "compare_two_sample_sets ext col (frame_max_columns ?others)"
  let ?ctab1 = "table_set_row ctab b ?v"
  let ?indiv1 = "indiv(b \<mapsto> s)"
  have step: "compare_many_loop ext df samples (b # rest) ctab indiv =
      compare_many_loop ext df samples rest ?ctab1 ?indiv1"
    using get drop row s by simp
  from Cons.prems(3) have bin: "b \<in> set (map fst (table_rows ctab))" by simp
  note t1 = table_set_row_props [OF bin, of ?v]
  have prems1: "set rest \<subseteq> set (map fst (columns samples))" "set rest \<subseteq> set (map fst df)"
    "set rest \<subseteq> set (map fst (table_rows ?ctab1))"
    using Cons.prems t1(1) by auto
  from Cons.IH [OF prems1, of ?indiv1] obtain res where
    ih: "compare_many_loop ext df samples rest ?ctab1 ?indiv1 = Inr res"
      "dom (individual res) = dom ?indiv1 \<union> set rest"
      "map fst (table_rows (comparative res)) = map fst (table_rows ?ctab1)"
      "\<forall>x. x \<notin> set rest \<longrightarrow>
           map_of (table_rows (comparative res)) x = map_of (table_rows ?ctab1) x"
      "\<forall>x \<in> set rest. \<forall>this others.
           frame_getitem samples x = Inr this \<longrightarrow> frame_drop samples x = Inr others \<longrightarrow>
           map_of (table_rows (comparative res)) x =
             Some (Some (compare_two_sample_sets ext this (frame_max_columns others)))"
      "\<forall>x. x \<notin> set rest \<longrightarrow> individual res x = ?indiv1 x"
      "\<forall>x \<in> set rest. \<forall>row s. loc df x = Inr row \<longrightarrow>
           summarize_one_from_summary ext row = Inr s \<longrightarrow> individual res x = Some s"
    by blast
  have indiv_b: "individual res b = Some s"
  proof (cases "b \<in> set rest")
    case True
    with ih(7) row s show ?thesis by blast
  next
    case False
    with ih(6) show ?thesis by simp
  qed
  have rows_b: "map_of (table_rows (comparative res)) b = Some (Some ?v)"
  proof (cases "b \<in> set rest")
    case True
    with ih(5) get drop show ?thesis by blast
  next
    case False
    with ih(4) t1(2) [of b] show ?thesis by simp
  qed
  show ?case
  proof (intro exI conjI)
    show "compare_many_loop ext df samples (b # rest) ctab indiv = Inr res"
      using step ih(1) by simp
    show "dom (individual res) = dom indiv \<union> set (b # rest)"
      using ih(2) by auto
    show "map fst (table_rows (comparative res)) = map fst (table_rows ctab)"
      using ih(3) t1(1) by simp
    show "\<forall>x. x \<notin> set (b # rest) \<longrightarrow>
           map_of (table_rows (comparative res)) x = map_of (table_rows ctab) x"
      using ih(4) t1(2) by simp
    show "\<forall>x \<in> set (b # rest). \<forall>this others.
           frame_getitem samples x = Inr this \<longrightarrow> frame_drop samples x = Inr others \<longrightarrow>
           map_of (table_rows (comparative res)) x =
             Some (Some (compare_two_sample_sets ext this (frame_max_columns others)))"
      using ih(5) rows_b get drop by auto
    show "\<forall>x. x \<notin> set (b # rest) \<longrightarrow> individual res x = indiv x"
      using ih(6) by simp
    show "\<forall>x \<in> set (b # rest). \<forall>row s. loc df x = Inr row \<longrightarrow>
           summarize_one_from_summary ext row = Inr s \<longrightarrow> individual res x = Some s"
      using ih(7) indiv_b row s by auto
  qed
qed

lemma fmax_NaN_right: "fmax x NaN = x"
  by (cases x) simp_all

lemma frame_max_columns_single:
  assumes "columns f = [(l, c)]" "length c = length (index f)"
  shows "frame_max_columns f = c"
proof -
  have "frame_max_columns f = map (\<lambda>i. c ! i) [0..<length c]"
    using assms by (simp add: frame_max_columns_def fmax_NaN_right)
  then show ?thesis by (simp add: map_nth)
qed

lemma foldr_fmax_max:
  assumes "vs \<noteq> []" "\<forall>v \<in> set vs. \<exists>x. v = Finite x"
  shows "foldr fmax vs NaN \<in> set vs \<and> (\<forall>v \<in> set vs. cell_le v (foldr fmax vs NaN))"
  using assms
proof (induction vs)
  case Nil
  then show ?case by simp
next
  case (Cons v ws)
  from Cons.prems obtain x where v: "v = Finite x" by auto
  show ?case
  proof (cases "ws = []")
    case True
    with v show ?thesis by simp
  next
    case False
    with Cons have ih: "foldr fmax ws NaN \<in> set ws" "\<forall>w \<in> set ws. cell_le w (foldr fmax ws NaN)"
      by auto
    from ih(1) Cons.prems(2) obtain y where m: "foldr fmax ws NaN = Finite y" by auto
    have le: "\<forall>w \<in> set ws. cell_le w (Finite (max x y))"
    proof
      fix w assume w: "w \<in> set ws"
      with Cons.prems(2) obtain z where z: "w = Finite z" by auto
      from ih(2) w m z have "z \<le> y" by auto
      with z show "cell_le w (Finite (max x y))" by simp
    qed
    have "Finite (max x y) = v \<or> Finite (max x y) = Finite y"
      using v by (simp add: max_def)
    with ih(1) m have mem: "Finite (max x y) \<in> set (v # ws)" by auto
    from v m le mem show ?thesis by simp
  qed
qed

lemma other_labels_subset: "set (other_labels df control_label) \<subseteq> set (map fst df) - {control_label}"
  by (auto simp: other_labels_def)

text \<open>The two-branch orchestrator once the sampler has returned.\<close>

lemma compare_two_from_summary_run:
  assumes "length df = 2" "control_label \<in> set (map fst df)"
    and "other_labels df control_label = test_label # ls"
    and "generate_samples ext df ns g = (Inr samples, g')"
  shows "\<exists>t c rc rt sc st.
      frame_getitem samples test_label = Inr t \<and> frame_getitem samples control_label = Inr c
    \<and> loc df control_label = Inr rc \<and> loc df test_label = Inr rt
    \<and> summarize_one_from_summary ext rc = Inr sc \<and> summarize_one_from_summary ext rt = Inr st
    \<and> compare_two_from_summary ext df control_label cl ns g =
         (Inr \<lparr>comparative = \<lparr>stats_name = cl, stats = compare_two_sample_sets ext t c\<rparr>,
               individual = [control_label \<mapsto> sc, test_label \<mapsto> st]\<rparr>, g')"
proof -
  from assms(3) other_labels_subset [of df control_label]
  have test_in: "test_label \<in> set (map fst df)" by auto
  note keys = generate_samples_Inr(2) [OF assms(4)]
  from frame_getitem_ok [of test_label samples] test_in keys
  obtain t where t: "frame_getitem samples test_label = Inr t" by auto
  from frame_getitem_ok [of control_label samples] assms(2) keys
  obtain c where c: "frame_getitem samples control_label = Inr c" by auto
  from loc_ok [OF assms(2)] obtain rc where rc: "loc df control_label = Inr rc" by blast
  from loc_ok [OF test_in] obtain rt where rt: "loc df test_label = Inr rt" by blast
  obtain sc where sc: "summarize_one_from_summary ext rc = Inr sc"
    using summarize_one_from_summary_eq by blast
  obtain st where st: "summarize_one_from_summary ext rt = Inr st"
    using summarize_one_from_summary_eq by blast
  have "compare_two_from_summary ext df control_label cl ns g =
         (Inr \<lparr>comparative = \<lparr>stats_name = cl, stats = compare_two_sample_sets ext t c\<rparr>,
               individual = [control_label \<mapsto> sc, test_label \<mapsto> st]\<rparr>, g')"
    using assms t c rc rt sc st by (simp add: compare_two_from_summary_def del: set_map)
  with t c rc rt sc st show ?thesis by blast
qed

lemma compare_two_from_summary_Inr:
  assumes "compare_two_from_summary ext df control_label cl ns g = (Inr two, g')"
  shows "length df = 2 \<and> control_label \<in> set (map fst df)
     \<and> (\<exists>test_label ls samples. other_labels df control_label = test_label # ls
            \<and> generate_samples ext df ns g = (Inr samples, g'))"
  using assms
  by (auto simp: compare_two_from_summary_def simp del: set_map
      split: if_splits list.splits prod.splits sum.splits)

text \<open>The multi-branch orchestrator once the sampler has returned.\<close>

lemma compare_many_from_summary_run:
  assumes "generate_samples ext df ns g = (Inr samples, g')"
  shows "\<exists>res. compare_many_from_summary ext df cl ns g = (Inr res, g')
     \<and> dom (individual res) = set (map fst df)
     \<and> map fst (table_rows (comparative res)) = map fst df
     \<and> (\<forall>b \<in> set (map fst df). \<forall>this others.
           frame_getitem samples b = Inr this \<longrightarrow> frame_drop samples b = Inr others \<longrightarrow>
           map_of (table_rows (comparative res)) b =
             Some (Some (compare_two_sample_sets ext this (frame_max_columns others))))
     \<and> (\<forall>b \<in> set (map fst df). \<forall>row s. loc df b = Inr row \<longrightarrow>
           summarize_one_from_summary ext row = Inr s \<longrightarrow> individual res b = Some s)"
proof -
  let ?ctab = "\<lparr>table_name = cl, table_columns = res_columns ext,
                table_rows = map (\<lambda>l. (l, None)) (map fst df)\<rparr> :: 'b stats_table"
  have rows: "map fst (table_rows ?ctab) = map fst df" by (simp add: comp_def)
  have k1: "set (map fst df) \<subseteq> set (map fst (columns samples))"
    using generate_samples_Inr(2) [OF assms] by simp
  have k2: "set (map fst df) \<subseteq> set (map fst df)" by simp
  have k3: "set (map fst df) \<subseteq> set (map fst (table_rows ?ctab))"
    using rows by simp
  from compare_many_loop_ok [OF k1 k2 k3, of ext Map.empty] obtain res where
    res: "compare_many_loop ext df samples (map fst df) ?ctab Map.empty = Inr res"
      "dom (individual res) = dom (Map.empty :: string \<rightharpoonup> series) \<union> set (map fst df)"
      "map fst (table_rows (comparative res)) = map fst (table_rows ?ctab)"
      "\<forall>b \<in> set (map fst df). \<forall>this others.
           frame_getitem samples b = Inr this \<longrightarrow> frame_drop samples b = Inr others \<longrightarrow>
           map_of (table_rows (comparative res)) b =
             Some (Some (compare_two_sample_sets ext this (frame_max_columns others)))"
      "\<forall>b \<in> set (map fst df). \<forall>row s. loc df b = Inr row \<longrightarrow>
           summarize_one_from_summary ext row = Inr s \<longrightarrow> individual res b = Some s"
    by blast
  have "compare_many_from_summary ext df cl ns g = (Inr res, g')"
    using assms res(1) by (simp add: compare_many_from_summary_def)
  moreover have "dom (individual res) = set (map fst df)" using res(2) by simp
  moreover have "map fst (table_rows (comparative res)) = map fst df" using res(3) rows by simp
  ultimately show ?thesis using res(4,5) by blast
qed

lemma compare_many_from_summary_Inr:
  assumes "compare_many_from_summary ext df cl ns g = (Inr many, g')"
  shows "\<exists>samples. generate_samples ext df ns g = (Inr samples, g')"
  using assms
  by (auto simp: compare_many_from_summary_def split: prod.splits sum.splits)

lemma compare_many_from_summary_Inl:
  assumes "fst (generate_samples ext df ns g) = Inl e"
  shows "fst (compare_many_from_summary ext df cl ns g) = Inl e"
  using assms
  by (cases "generate_samples ext df ns g") (simp add: compare_many_from_summary_def)

lemma compare_two_from_summary_Inl:
  assumes "fst (generate_samples ext df ns g) = Inl e"
  shows "fst (compare_two_from_summary ext df control_label cl ns g)
           \<in> {Inl AssertionError, Inl IndexError, Inl e}"
  using assms
  by (cases "generate_samples ext df ns g")
     (simp add: compare_two_from_summary_def split: list.splits)

lemma length_groupby_agg: "length (groupby_agg df) = card (set (map fst df))"
  by (simp add: groupby_agg_def length_remdups_card_conv del: set_map)

subsection \<open>Evaluations of the examples\<close>

lemmas eval_defs = generate_samples_def example_ext_def np_random_beta_def new_frame_def arange_def
  frame_setitem_def frame_getitem_def frame_drop_def frame_max_columns_def loc_def
  compare_two_from_summary_def compare_many_from_summary_def other_labels_def table_set_row_def
  eval_nat_numeral

lemma generate_samples_scenario:
  "generate_samples example_ext scenario 2 0 =
     (Inr \<lparr>index = [0, 1],
           columns = [(''control'', [Finite (1/2), Finite (1/3)]),
                      (''treatment'', [Finite (1/4), Finite (1/5)])]\<rparr>, 4)"
  by (simp add: eval_defs scenario_def)

lemma generate_samples_three_arms:
  "generate_samples example_ext three_arms 2 0 =
     (Inr \<lparr>index = [0, 1],
           columns = [(''a'', [Finite (1/2), Finite (1/3)]),
                      (''b'', [Finite (1/4), Finite (1/5)]),
                      (''c'', [Finite (1/6), Finite (1/7)])]\<rparr>, 6)"
  by (simp add: eval_defs three_arms_def)

lemma posterior_samples_scenario:
  "posterior_samples example_ext 2 scenario 0 =
     ([(''control'', [Finite (1/2), Finite (1/3)]),
       (''treatment'', [Finite (1/4), Finite (1/5)])], 4)"
  by (simp add: scenario_def posterior_draws_def state_after_draws_def next_state_def
      example_ext_def eval_nat_numeral)

lemma groupby_agg_subjects:
  "groupby_agg subjects = [(''control'', \<lparr>num_enrollments = 2, num_conversions = 1\<rparr>),
                           (''treatment'', \<lparr>num_enrollments = 2, num_conversions = 1\<rparr>)]"
  by (simp add: groupby_agg_def subjects_def)

lemma frame_max_is_rowwise_max:
  assumes fin: "\<forall>(l, c) \<in> set (columns samples).
                  \<exists>xs. c = map Finite xs \<and> length xs = length (index samples)"
    and other: "\<exists>(l, c) \<in> set (columns samples). l \<noteq> b"
  shows "is_rowwise_max_of_rest samples b
           (frame_max_columns (samples\<lparr>columns := filter (\<lambda>(k, c). k \<noteq> b) (columns samples)\<rparr>))"
proof -
  let ?rest = "filter (\<lambda>(k, c). k \<noteq> b) (columns samples)"
  let ?ys = "frame_max_columns (samples\<lparr>columns := ?rest\<rparr>)"
  have len: "length ?ys = length (index samples)"
    by (simp add: frame_max_columns_def)
  have row: "(\<exists>(l, c) \<in> set (columns samples). l \<noteq> b \<and> ?ys ! i = c ! i) \<and>
             (\<forall>(l, c) \<in> set (columns samples). l \<noteq> b \<longrightarrow> cell_le (c ! i) (?ys ! i))"
    if i: "i < length (index samples)" for i
  proof -
    let ?vs = "map (\<lambda>(k, c). c ! i) ?rest"
    have ysi: "?ys ! i = foldr fmax ?vs NaN"
      using i by (simp add: frame_max_columns_def)
    from other have ne: "?vs \<noteq> []"
      by (auto simp: filter_empty_conv)
    have allfin: "\<forall>v \<in> set ?vs. \<exists>x. v = Finite x"
    proof
      fix v assume "v \<in> set ?vs"
      then obtain k c where kc: "(k, c) \<in> set (columns samples)" "v = c ! i" by auto
      with fin obtain xs where "c = map Finite xs" "length xs = length (index samples)" by blast
      with kc(2) i show "\<exists>x. v = Finite x" by simp
    qed
    from foldr_fmax_max [OF ne allfin]
    have mem: "foldr fmax ?vs NaN \<in> set ?vs"
      and le: "\<forall>v \<in> set ?vs. cell_le v (foldr fmax ?vs NaN)" by blast+
    from mem obtain l c where "(l, c) \<in> set (columns samples)" "l \<noteq> b" "foldr fmax ?vs NaN = c ! i"
      by auto
    then have ex: "\<exists>(l, c) \<in> set (columns samples). l \<noteq> b \<and> ?ys ! i = c ! i"
      using ysi by auto
    have all: "\<forall>(l, c) \<in> set (columns samples). l \<noteq> b \<longrightarrow> cell_le (c ! i) (?ys ! i)"
    proof (intro ballI, clarify)
      fix l c assume "(l, c) \<in> set (columns samples)" "l \<noteq> b"
      then have "c ! i \<in> set ?vs" by force
      with le have "cell_le (c ! i) (foldr fmax ?vs NaN)" by blast
      then show "cell_le (c ! i) (?ys ! i)" by (simp only: ysi)
    qed
    from ex all show ?thesis by blast
  qed
  show ?thesis
    unfolding is_rowwise_max_of_rest_def using len row by simp
qed

lemma posterior_samples_finite:
  "(l, c) \<in> set (fst (posterior_samples ext ns df g)) \<Longrightarrow>
     \<exists>xs. c = map Finite xs \<and> length xs = nat ns"
proof (induction df arbitrary: g)
  case Nil
  then show ?case by simp
next
  case (Cons p df)
  obtain k r where p: "p = (k, r)" by (cases p)
  obtain cols g2 where ps: "posterior_samples ext ns df (state_after_draws ext r ns g) = (cols, g2)"
    by (cases "posterior_samples ext ns df (state_after_draws ext r ns g)")
  from Cons.prems p ps have "c = posterior_draws ext r ns g \<or> (l, c) \<in> set cols" by auto
  then show ?case
  proof
    assume "c = posterior_draws ext r ns g"
    then show ?thesis using posterior_draws_finite [of ext r ns g] by simp
  next
    assume "(l, c) \<in> set cols"
    with ps Cons.IH [of "state_after_draws ext r ns g"] show ?thesis by simp
  qed
qed

lemma distinct_has_other:
  assumes "distinct xs" "2 \<le> length xs"
  shows "\<exists>y \<in> set xs. y \<noteq> b"
proof (rule ccontr)
  assume "\<not> (\<exists>y \<in> set xs. y \<noteq> b)"
  then have "set xs \<subseteq> {b}" by auto
  then have "card (set xs) \<le> card {b}" by (intro card_mono) auto
  with assms show False by (simp add: distinct_card)
qed

lemma two_columns:
  assumes "map fst cols = [l1, l2]"
  shows "\<exists>c1 c2. cols = [(l1, c1), (l2, c2)]"
  using assms by (cases cols; cases "tl cols") auto

lemma two_labels:
  assumes "length xs = 2" "a \<in> set xs" "b \<in> set xs" "a \<noteq> b"
  shows "set xs = {a, b}"
proof -
  from assms(1) obtain x y where "xs = [x, y]" by (cases xs; cases "tl xs") auto
  with assms(2-4) show ?thesis by auto
qed

section \<open>The claims of the specification\<close>

text \<open>
  Claim C1 (Posterior Sampler), as amended. The counts are int64 values, and the sums
  \<open>c + 1\<close> and \<open>n - c + 1\<close> wrap around: on a valid table with
  \<open>n = 2^63 - 1\<close> and \<open>c = 0\<close> numpy is called with a negative parameter
  and raises. For a summary table with distinct branches, counts with
  0 \<le> conversions \<le> enrollments whose Beta parameters fit int64, and a non-negative
  \<open>num_samples\<close>, \<^verbatim>\<open>_generate_samples\<close> returns the specification's sample
  table (\<open>posterior_samples\<close>): one column per branch, in the table's order; the
  column of a branch with \<open>c\<close> conversions and \<open>n\<close> enrollments holds
  \<open>num_samples\<close> draws from Beta(c + 1, n - c + 1); every draw is made in the
  generator state that the draw before it left, within a column and from one branch to
  the next; the generator is returned in the state after the last draw; and every
  column has exactly \<open>num_samples\<close> entries. State passing is how the model says
  that no draw is made twice; that numpy's draws are stochastically independent is a
  property of its generator, a parameter of the model.
\<close>

theorem generate_samples_posterior_draws:
  assumes "distinct (map fst df)" and "valid_counts df" and "fits_int64 df"
    and "0 \<le> num_samples"
  shows "\<exists>samples. generate_samples ext df num_samples g
                     = (Inr samples, snd (posterior_samples ext num_samples df g))
     \<and> columns samples = fst (posterior_samples ext num_samples df g)
     \<and> map fst (columns samples) = map fst df
     \<and> (\<forall>(l, c) \<in> set (columns samples). int (length c) = num_samples)"
proof -
  from generate_samples_ok [OF assms(4) rows_ok [OF assms(2,3)], of ext g] assms(1)
  obtain samples where
    run: "generate_samples ext df num_samples g
            = (Inr samples, snd (posterior_samples ext num_samples df g))"
    and cols: "columns samples = fst (posterior_samples ext num_samples df g)"
    by blast
  note shape = generate_samples_Inr [OF run]
  have "\<forall>(l, c) \<in> set (columns samples). int (length c) = num_samples"
  proof (intro ballI, clarify)
    fix l c assume "(l, c) \<in> set (columns samples)"
    then have "c \<in> set (map snd (columns samples))" by force
    with shape(3) have "length c = length (arange num_samples)" by blast
    with assms(4) show "int (length c) = num_samples" by (simp add: arange_def)
  qed
  with run cols shape(2) show ?thesis by blast
qed

theorem generate_samples_posterior_draws_witness:
  "distinct (map fst scenario) \<and> valid_counts scenario \<and> fits_int64 scenario
   \<and> (\<exists>samples. generate_samples example_ext scenario 2 0 = (Inr samples, 4)
        \<and> columns samples = [(''control'', [Finite (1/2), Finite (1/3)]),
                              (''treatment'', [Finite (1/4), Finite (1/5)])]
        \<and> list_all (\<lambda>(l, c). length c = 2) (columns samples))"
proof -
  have h1: "distinct (map fst scenario)" by (simp add: scenario_def)
  have h2: "valid_counts scenario" by (simp add: scenario_def valid_counts_def)
  have h3: "fits_int64 scenario" by (simp add: scenario_def fits_int64_def parameters_fit_def)
  have h4: "(0::int) \<le> 2" by simp
  from generate_samples_posterior_draws [OF h1 h2 h3 h4, of example_ext 0]
  obtain samples where
    "generate_samples example_ext scenario 2 0 = (Inr samples, 4)"
    "columns samples = [(''control'', [Finite (1/2), Finite (1/3)]),
                        (''treatment'', [Finite (1/4), Finite (1/5)])]"
    by (auto simp: posterior_samples_scenario)
  with h1 h2 h3 show ?thesis by auto
qed

theorem int64_edge_sampler_counterexample:
  "distinct (map fst int64_edge) \<and> valid_counts int64_edge
   \<and> generate_samples example_ext int64_edge 2 0 = (Inl ValueError, 0)"
  by (simp add: int64_edge_def valid_counts_def generate_samples_def np_random_beta_def)

text \<open>
  Claim C2 (Single-Branch Summarizer), as amended. The sums \<open>c + 1\<close> and
  \<open>n - c + 1\<close> are int64 sums and wrap around (at \<open>c = n = 2^63 - 1\<close> the
  first parameter is \<open>-2^63\<close>). For a row with \<open>n > 0\<close> enrollments and
  \<open>c\<close> conversions whose Beta parameters fit int64,
  \<^verbatim>\<open>summarize_one_from_summary\<close> returns the Series whose \<^verbatim>\<open>mean\<close> is
  \<open>c / n\<close> and whose four further entries are the percent-point function of
  Beta(c + 1, n - c + 1) at 0.005, 0.05, 0.95 and 0.995: the same two parameters as the
  sampler's draws.
\<close>

theorem summarize_one_mean_and_quantiles:
  assumes "0 < sint (num_enrollments s)" and "parameters_fit s"
  shows "summarize_one_from_summary ext s =
     Inr [(''mean'', Finite (real_of_int (sint (num_conversions s))
                             / real_of_int (sint (num_enrollments s)))),
          (''0.005'', beta_ppf ext (sint (num_conversions s) + 1)
                        (sint (num_enrollments s) - sint (num_conversions s) + 1) 0.005),
          (''0.05'', beta_ppf ext (sint (num_conversions s) + 1)
                        (sint (num_enrollments s) - sint (num_conversions s) + 1) 0.05),
          (''0.95'', beta_ppf ext (sint (num_conversions s) + 1)
                        (sint (num_enrollments s) - sint (num_conversions s) + 1) 0.95),
          (''0.995'', beta_ppf ext (sint (num_conversions s) + 1)
                        (sint (num_enrollments s) - sint (num_conversions s) + 1) 0.995)]"
proof -
  from assms(1) have "num_enrollments s \<noteq> 0" by auto
  then show ?thesis
    by (simp add: summarize_one_from_summary_eq true_divide_def parameters_fit_sint [OF assms(2)])
qed

theorem summarize_one_mean_and_quantiles_witness:
  "summarize_one_from_summary example_ext \<lparr>num_enrollments = 1000, num_conversions = 100\<rparr> =
     Inr [(''mean'', Finite (1 / 10)), (''0.005'', Finite 0.005), (''0.05'', Finite 0.05),
          (''0.95'', Finite 0.95), (''0.995'', Finite 0.995)]"
proof -
  have h1: "0 < sint (num_enrollments \<lparr>num_enrollments = 1000, num_conversions = 100\<rparr>)"
    by simp
  have h2: "parameters_fit \<lparr>num_enrollments = 1000, num_conversions = 100\<rparr>"
    by (simp add: parameters_fit_def)
  from summarize_one_mean_and_quantiles [OF h1 h2, of example_ext]
  show ?thesis by (simp add: example_ext_def)
qed

theorem int64_edge_quantiles_counterexample:
  "0 < sint (num_enrollments all_converted)
   \<and> summarize_one_from_summary example_ext all_converted =
       Inr [(''mean'', Finite 1), (''0.005'', NaN), (''0.05'', NaN),
            (''0.95'', NaN), (''0.995'', NaN)]
   \<and> beta_ppf example_ext (sint (num_conversions all_converted) + 1)
        (sint (num_enrollments all_converted) - sint (num_conversions all_converted) + 1) 0.005
       = Finite 0.005"
  by (simp add: all_converted_def summarize_one_from_summary_eq true_divide_def example_ext_def)

text \<open>
  Claim C3 (Multi-Branch Orchestrator), as amended. On a valid table whose Beta
  parameters wrap around in int64 the sampler raises and the comparator is never called.
  For a summary table with at least two distinct branches, valid counts whose Beta
  parameters fit int64, and a non-negative \<open>num_samples\<close>,
  \<^verbatim>\<open>compare_many_from_summary\<close> generates one sample table, and the row of every
  branch \<open>b\<close> in its comparative table is the comparator applied to the column of
  \<open>b\<close> in that table and to the per-row best of the rest: the sequence whose
  \<open>i\<close>-th entry is the maximum of the values that the other branches have at row
  \<open>i\<close>. The comparator is an arbitrary function here, so the equation fixes the two
  arguments it is called with.
\<close>

theorem compare_many_best_of_rest:
  assumes "distinct (map fst df)" and "valid_counts df" and "fits_int64 df"
    and "0 \<le> num_samples" and "2 \<le> length df"
  shows "\<exists>samples g' many. generate_samples ext df num_samples g = (Inr samples, g')
     \<and> compare_many_from_summary ext df cl num_samples g = (Inr many, g')
     \<and> (\<forall>b \<in> set (map fst df). \<exists>this_branch best_of_rest.
           frame_getitem samples b = Inr this_branch
         \<and> is_rowwise_max_of_rest samples b best_of_rest
         \<and> map_of (table_rows (comparative many)) b =
             Some (Some (compare_two_sample_sets ext this_branch best_of_rest)))"
proof -
  from generate_samples_ok [OF assms(4) rows_ok [OF assms(2,3)], of ext g] assms(1)
  obtain samples g' where
    run: "generate_samples ext df num_samples g = (Inr samples, g')"
    and cols: "columns samples = fst (posterior_samples ext num_samples df g)"
    by blast
  note shape = generate_samples_Inr [OF run]
  from compare_many_from_summary_run [OF run, of cl] obtain many where
    many: "compare_many_from_summary ext df cl num_samples g = (Inr many, g')"
    and rows: "\<forall>b \<in> set (map fst df). \<forall>this others.
           frame_getitem samples b = Inr this \<longrightarrow> frame_drop samples b = Inr others \<longrightarrow>
           map_of (table_rows (comparative many)) b =
             Some (Some (compare_two_sample_sets ext this (frame_max_columns others)))"
    by blast
  have fin: "\<forall>(l, c) \<in> set (columns samples).
                  \<exists>xs. c = map Finite xs \<and> length xs = length (index samples)"
  proof (intro ballI, clarify)
    fix l c assume lc: "(l, c) \<in> set (columns samples)"
    have "length (index samples) = nat num_samples" using shape(1) by (simp add: arange_def)
    with lc cols posterior_samples_finite [of l c ext num_samples df g]
    show "\<exists>xs. c = map Finite xs \<and> length xs = length (index samples)" by simp
  qed
  have "\<exists>this_branch best_of_rest.
           frame_getitem samples b = Inr this_branch
         \<and> is_rowwise_max_of_rest samples b best_of_rest
         \<and> map_of (table_rows (comparative many)) b =
             Some (Some (compare_two_sample_sets ext this_branch best_of_rest))"
    if b: "b \<in> set (map fst df)" for b
  proof -
    let ?others = "samples\<lparr>columns := filter (\<lambda>(k, c). k \<noteq> b) (columns samples)\<rparr>"
    from b shape(2) frame_getitem_ok [of b samples] obtain col where
      col: "frame_getitem samples b = Inr col" by auto
    from b shape(2) have drop: "frame_drop samples b = Inr ?others"
      by (simp add: frame_drop_def)
    from distinct_has_other [of "map fst df" b] assms(1,5) obtain y where
      "y \<in> set (map fst (columns samples))" "y \<noteq> b" using shape(2) by auto
    then have other: "\<exists>(l, c) \<in> set (columns samples). l \<noteq> b" by force
    from rows b col drop have "map_of (table_rows (comparative many)) b =
             Some (Some (compare_two_sample_sets ext col (frame_max_columns ?others)))"
      by blast
    with col frame_max_is_rowwise_max [OF fin other] show ?thesis by blast
  qed
  with run many show ?thesis by blast
qed

theorem compare_many_best_of_rest_witness:
  "\<exists>many g'. compare_many_from_summary example_ext three_arms ''num_conversions'' 2 0 = (Inr many, g')
     \<and> map_of (table_rows (comparative many)) ''b'' =
         Some (Some ([Finite (1/4), Finite (1/5)], [Finite (1/2), Finite (1/3)]))
     \<and> is_rowwise_max_of_rest
         \<lparr>index = [0, 1],
          columns = [(''a'', [Finite (1/2), Finite (1/3)]),
                     (''b'', [Finite (1/4), Finite (1/5)]),
                     (''c'', [Finite (1/6), Finite (1/7)])]\<rparr>
         ''b'' [Finite (1/2), Finite (1/3)]"
proof -
  have h1: "distinct (map fst three_arms)" by (simp add: three_arms_def)
  have h2: "valid_counts three_arms" by (simp add: three_arms_def valid_counts_def)
  have h3: "fits_int64 three_arms" by (simp add: three_arms_def fits_int64_def parameters_fit_def)
  have h4: "(0::int) \<le> 2" by simp
  have h5: "2 \<le> length three_arms" by (simp add: three_arms_def)
  let ?s = "\<lparr>index = [0, 1],
          columns = [(''a'', [Finite (1/2), Finite (1/3)]),
                     (''b'', [Finite (1/4), Finite (1/5)]),
                     (''c'', [Finite (1/6), Finite (1/7)])]\<rparr>"
  from compare_many_best_of_rest [OF h1 h2 h3 h4 h5, of example_ext 0 "''num_conversions''"]
  obtain samples g' many where
    run: "generate_samples example_ext three_arms 2 0 = (Inr samples, g')"
    and many: "compare_many_from_summary example_ext three_arms ''num_conversions'' 2 0 = (Inr many, g')"
    and rows: "\<forall>b \<in> set (map fst three_arms). \<exists>this_branch best_of_rest.
           frame_getitem samples b = Inr this_branch
         \<and> is_rowwise_max_of_rest samples b best_of_rest
         \<and> map_of (table_rows (comparative many)) b =
             Some (Some (compare_two_sample_sets example_ext this_branch best_of_rest))"
    by blast
  from run have s: "samples = ?s" by (simp add: generate_samples_three_arms)
  have "''b'' \<in> set (map fst three_arms)" by (simp add: three_arms_def)
  with rows obtain this_branch best where
    m: "frame_getitem samples ''b'' = Inr this_branch"
       "is_rowwise_max_of_rest samples ''b'' best"
       "map_of (table_rows (comparative many)) ''b'' =
          Some (Some (compare_two_sample_sets example_ext this_branch best))"
    by blast
  from m(1) s have this_branch: "this_branch = [Finite (1/4), Finite (1/5)]"
    by (simp add: frame_getitem_def)
  from m(2) s have "length best = 2" by (simp add: is_rowwise_max_of_rest_def)
  then obtain y0 y1 where best: "best = [y0, y1]"
    by (cases best; cases "tl best") auto
  from m(2) s have "y0 = Finite (1/2)" "y1 = Finite (1/3)"
    unfolding best is_rowwise_max_of_rest_def
    by (auto simp: All_less_Suc elim!: cell_le.elims)
  with m many s best this_branch show ?thesis by (auto simp: example_ext_def)
qed

theorem int64_edge_orchestrator_counterexample:
  "distinct (map fst int64_edge_second) \<and> valid_counts int64_edge_second
   \<and> compare_many_from_summary example_ext int64_edge_second ''num_conversions'' 2 0
       = (Inl ValueError, 2)"
  by (simp add: eval_defs int64_edge_second_def valid_counts_def)

text \<open>
  Claim C4 (two-versus-multi consistency). For a summary table with exactly two distinct
  branches, one of them the control, and the same generator state: when
  \<^verbatim>\<open>compare_two_from_summary\<close> returns, \<^verbatim>\<open>compare_many_from_summary\<close> returns
  too, from the same sample table, and its comparative row for the non-control branch is
  the comparative statistics of the two-branch result; the per-row maximum over the rest
  of the non-control branch is the control's column.
\<close>

theorem two_branches_many_agrees_with_two:
  assumes "length df = 2" and "distinct (map fst df)" and "control_label \<in> set (map fst df)"
    and "compare_two_from_summary ext df control_label cl num_samples g = (Inr two, g')"
  shows "\<exists>many test_label samples others c.
       compare_many_from_summary ext df cl num_samples g = (Inr many, g')
     \<and> other_labels df control_label = [test_label]
     \<and> map_of (table_rows (comparative many)) test_label = Some (Some (stats (comparative two)))
     \<and> generate_samples ext df num_samples g = (Inr samples, g')
     \<and> frame_drop samples test_label = Inr others
     \<and> frame_getitem samples control_label = Inr c
     \<and> frame_max_columns others = c"
proof -
  from assms(1) obtain p1 p2 where df: "df = [p1, p2]"
    by (cases df; cases "tl df") auto
  obtain l1 r1 l2 r2 where p: "p1 = (l1, r1)" "p2 = (l2, r2)" by (cases p1; cases p2)
  from assms(2) df p have ne: "l1 \<noteq> l2" by simp
  from compare_two_from_summary_Inr [OF assms(4)] obtain samples where
    run: "generate_samples ext df num_samples g = (Inr samples, g')" by blast
  note shape = generate_samples_Inr [OF run]
  from shape(2) df p two_columns [of "columns samples" l1 l2] obtain c1 c2 where
    cols: "columns samples = [(l1, c1), (l2, c2)]" by auto
  from shape(1,3) cols have lens: "length c1 = length (index samples)" "length c2 = length (index samples)"
    by simp_all
  from compare_many_from_summary_run [OF run, of cl] obtain many where
    many: "compare_many_from_summary ext df cl num_samples g = (Inr many, g')"
    and rows: "\<forall>b \<in> set (map fst df). \<forall>this others.
           frame_getitem samples b = Inr this \<longrightarrow> frame_drop samples b = Inr others \<longrightarrow>
           map_of (table_rows (comparative many)) b =
             Some (Some (compare_two_sample_sets ext this (frame_max_columns others)))"
    by blast
  from assms(3) df p have "control_label = l1 \<or> control_label = l2" by auto
  then show ?thesis
  proof
    assume ctl: "control_label = l1"
    let ?others = "samples\<lparr>columns := [(l1, c1)]\<rparr>"
    have ol: "other_labels df control_label = [l2]"
      using ctl df p ne by (auto simp: other_labels_def)
    have get_t: "frame_getitem samples l2 = Inr c2" and get_c: "frame_getitem samples l1 = Inr c1"
      using cols ne by (auto simp: frame_getitem_def)
    have drop: "frame_drop samples l2 = Inr ?others"
      using cols ne by (auto simp: frame_drop_def)
    have mx: "frame_max_columns ?others = c1"
      using lens by (intro frame_max_columns_single [of _ l1]) simp_all
    from compare_two_from_summary_run [OF assms(1,3) ol run, of cl] assms(4) get_t get_c ctl
    have st: "stats (comparative two) = compare_two_sample_sets ext c2 c1" by auto
    from rows df p get_t drop mx
    have "map_of (table_rows (comparative many)) l2 = Some (Some (compare_two_sample_sets ext c2 c1))"
      by auto
    with many ol st run drop get_c mx ctl show ?thesis by auto
  next
    assume ctl: "control_label = l2"
    let ?others = "samples\<lparr>columns := [(l2, c2)]\<rparr>"
    have ol: "other_labels df control_label = [l1]"
      using ctl df p ne by (auto simp: other_labels_def)
    have get_t: "frame_getitem samples l1 = Inr c1" and get_c: "frame_getitem samples l2 = Inr c2"
      using cols ne by (auto simp: frame_getitem_def)
    have drop: "frame_drop samples l1 = Inr ?others"
      using cols ne by (auto simp: frame_drop_def)
    have mx: "frame_max_columns ?others = c2"
      using lens by (intro frame_max_columns_single [of _ l2]) simp_all
    from compare_two_from_summary_run [OF assms(1,3) ol run, of cl] assms(4) get_t get_c ctl
    have st: "stats (comparative two) = compare_two_sample_sets ext c1 c2" by auto
    from rows df p get_t drop mx
    have "map_of (table_rows (comparative many)) l1 = Some (Some (compare_two_sample_sets ext c1 c2))"
      by auto
    with many ol st run drop get_c mx ctl show ?thesis by auto
  qed
qed

theorem two_branches_many_agrees_with_two_witness:
  "\<exists>two many g'.
      compare_two_from_summary example_ext scenario ''control'' ''num_conversions'' 2 0 = (Inr two, g')
    \<and> compare_many_from_summary example_ext scenario ''num_conversions'' 2 0 = (Inr many, g')
    \<and> map_of (table_rows (comparative many)) ''treatment'' = Some (Some (stats (comparative two)))
    \<and> stats (comparative two) = ([Finite (1/4), Finite (1/5)], [Finite (1/2), Finite (1/3)])"
proof -
  have h1: "length scenario = 2" by (simp add: scenario_def)
  have h2: "distinct (map fst scenario)" by (simp add: scenario_def)
  have h3: "''control'' \<in> set (map fst scenario)" by (simp add: scenario_def)
  have ol: "other_labels scenario ''control'' = [''treatment'']"
    by (simp add: other_labels_def scenario_def)
  from compare_two_from_summary_run [OF h1 h3 ol generate_samples_scenario, of "''num_conversions''"]
  obtain two where
    h4: "compare_two_from_summary example_ext scenario ''control'' ''num_conversions'' 2 0 = (Inr two, 4)"
    and st: "stats (comparative two) = ([Finite (1/4), Finite (1/5)], [Finite (1/2), Finite (1/3)])"
    by (auto simp: frame_getitem_def example_ext_def)
  from two_branches_many_agrees_with_two [OF h1 h2 h3 h4] ol h4 st
  show ?thesis by auto
qed

text \<open>
  Claim C5 (invalid counts and sample counts), as amended. The source has no validation
  of its own and none of the specification's error classes; the failures are the
  ValueError of numpy's Beta draw inside the sampling loop. When \<open>num_samples\<close> is
  negative and the table is not empty, the first draw raises and the generator is
  untouched. When \<open>num_samples\<close> is not negative and a branch has
  0 \<le> enrollments < conversions, the draw for it raises; if the branches before it
  have valid counts whose parameters fit int64, all their draws have been made by
  then, and the generator is left in the state after them. In both cases
  \<^verbatim>\<open>compare_many_from_summary\<close> fails with ValueError and
  \<^verbatim>\<open>compare_two_from_summary\<close> with AssertionError, IndexError or ValueError; no
  result is returned.
\<close>

theorem sampler_fails_on_invalid_input:
  "(num_samples < 0 \<and> df \<noteq> [] \<longrightarrow>
      generate_samples ext df num_samples g = (Inl ValueError, g)
    \<and> compare_many_from_summary ext df cl num_samples g = (Inl ValueError, g))
   \<and> (0 \<le> num_samples \<and> df = pre @ (l, r) # post
        \<and> valid_counts pre \<and> fits_int64 pre
        \<and> 0 \<le> sint (num_enrollments r) \<and> sint (num_enrollments r) < sint (num_conversions r) \<longrightarrow>
      generate_samples ext df num_samples g
        = (Inl ValueError, snd (posterior_samples ext num_samples pre g))
    \<and> compare_many_from_summary ext df cl num_samples g
        = (Inl ValueError, snd (posterior_samples ext num_samples pre g)))
   \<and> ((\<exists>(l, r) \<in> set df. 0 \<le> sint (num_enrollments r)
            \<and> sint (num_enrollments r) < sint (num_conversions r))
        \<or> (num_samples < 0 \<and> df \<noteq> []) \<longrightarrow>
      fst (generate_samples ext df num_samples g) = Inl ValueError
    \<and> fst (compare_many_from_summary ext df cl num_samples g) = Inl ValueError
    \<and> fst (compare_two_from_summary ext df control_label cl num_samples g)
          \<in> {Inl AssertionError, Inl IndexError, Inl ValueError})"
proof (intro conjI impI)
  assume a: "num_samples < 0 \<and> df \<noteq> []"
  then show neg: "generate_samples ext df num_samples g = (Inl ValueError, g)"
    by (simp add: generate_samples_negative)
  then show "compare_many_from_summary ext df cl num_samples g = (Inl ValueError, g)"
    by (simp add: compare_many_from_summary_def)
next
  assume a: "0 \<le> num_samples \<and> df = pre @ (l, r) # post
        \<and> valid_counts pre \<and> fits_int64 pre
        \<and> 0 \<le> sint (num_enrollments r) \<and> sint (num_enrollments r) < sint (num_conversions r)"
  then have "valid_counts pre" "fits_int64 pre" by simp_all
  then have ok: "\<forall>(l, r) \<in> set pre. row_ok r" by (rule rows_ok)
  from a generate_samples_fails_at [OF _ ok, of num_samples r ext l post g]
  show at: "generate_samples ext df num_samples g
        = (Inl ValueError, snd (posterior_samples ext num_samples pre g))"
    by simp
  then show "compare_many_from_summary ext df cl num_samples g
        = (Inl ValueError, snd (posterior_samples ext num_samples pre g))"
    by (simp add: compare_many_from_summary_def)
next
  assume a: "(\<exists>(l, r) \<in> set df. 0 \<le> sint (num_enrollments r)
            \<and> sint (num_enrollments r) < sint (num_conversions r))
        \<or> (num_samples < 0 \<and> df \<noteq> [])"
  from generate_samples_fails [OF a, of ext g]
  show f: "fst (generate_samples ext df num_samples g) = Inl ValueError" .
  from f compare_many_from_summary_Inl [of ext df num_samples g ValueError cl]
  show "fst (compare_many_from_summary ext df cl num_samples g) = Inl ValueError" by simp
  from f compare_two_from_summary_Inl [of ext df num_samples g ValueError control_label cl]
  show "fst (compare_two_from_summary ext df control_label cl num_samples g)
          \<in> {Inl AssertionError, Inl IndexError, Inl ValueError}" by simp
qed

theorem sampler_fails_on_invalid_input_witness:
  "generate_samples example_ext excess_conversions 2 0 = (Inl ValueError, 2)
   \<and> compare_many_from_summary example_ext excess_conversions ''num_conversions'' 2 0
        = (Inl ValueError, 2)
   \<and> fst (compare_two_from_summary example_ext excess_conversions ''control'' ''num_conversions'' 2 0)
        = Inl ValueError
   \<and> generate_samples example_ext scenario (- 1) 0 = (Inl ValueError, 0)"
proof -
  let ?pre = "[(''control'', \<lparr>num_enrollments = 10, num_conversions = 5\<rparr>)] :: summary"
  let ?r = "\<lparr>num_enrollments = 3, num_conversions = 7\<rparr> :: srow"
  have split: "excess_conversions = ?pre @ (''treatment'', ?r) # []"
    by (simp add: excess_conversions_def)
  have pre: "valid_counts ?pre" "fits_int64 ?pre"
    by (simp_all add: valid_counts_def fits_int64_def parameters_fit_def)
  have r: "0 \<le> sint (num_enrollments ?r)" "sint (num_enrollments ?r) < sint (num_conversions ?r)"
    by simp_all
  have st: "snd (posterior_samples example_ext 2 ?pre 0) = 2"
    by (simp add: state_after_draws_def next_state_def example_ext_def eval_nat_numeral)
  have bad: "\<exists>(l, r) \<in> set excess_conversions. 0 \<le> sint (num_enrollments r)
            \<and> sint (num_enrollments r) < sint (num_conversions r)"
    by (simp add: excess_conversions_def)
  have neg: "(- 1 :: int) < 0" "scenario \<noteq> []" by (simp_all add: scenario_def)
  have two: "fst (compare_two_from_summary example_ext excess_conversions ''control'' ''num_conversions'' 2 0)
        = Inl ValueError"
    by (simp add: eval_defs excess_conversions_def)
  from sampler_fails_on_invalid_input
         [where df = excess_conversions and pre = ?pre and l = "''treatment''" and r = ?r
            and post = "[]" and num_samples = 2 and ext = example_ext and g = 0
            and cl = "''num_conversions''" and control_label = "''control''"]
       split pre r st bad
  have a: "generate_samples example_ext excess_conversions 2 0 = (Inl ValueError, 2)"
    "compare_many_from_summary example_ext excess_conversions ''num_conversions'' 2 0
        = (Inl ValueError, 2)"
    by simp_all
  from sampler_fails_on_invalid_input
         [where df = scenario and num_samples = "- 1" and ext = example_ext and g = 0
            and cl = "''num_conversions''"]
       neg
  have b: "generate_samples example_ext scenario (- 1) 0 = (Inl ValueError, 0)" by simp
  from a b two show ?thesis by simp
qed

theorem fail_fast_counterexample:
  "generate_samples example_ext scenario 0 0 =
     (Inr \<lparr>index = [], columns = [(''control'', []), (''treatment'', [])]\<rparr>, 0)
   \<and> compare_many_from_summary example_ext excess_conversions ''num_conversions'' 2 0
       = (Inl ValueError, 2)"
  by (simp add: eval_defs scenario_def excess_conversions_def)

text \<open>
  Claim C6 (control-branch validation), as amended. \<^verbatim>\<open>compare_two_from_summary\<close>
  on a table that does not have exactly two rows, or whose index lacks the control
  label, fails with AssertionError; on a table of two rows that both carry the control
  label it fails with IndexError; and \<^verbatim>\<open>compare_two\<close> on data with more than
  two branches and no focus label fails with AssertionError. In every case the
  generator state is the initial one, so nothing has been sampled.
\<close>

theorem two_branch_validation:
  "(length df \<noteq> 2 \<or> control_label \<notin> set (map fst df) \<longrightarrow>
      compare_two_from_summary ext df control_label cl num_samples g = (Inl AssertionError, g))
   \<and> (length df = 2 \<and> control_label \<in> set (map fst df) \<and> \<not> distinct (map fst df) \<longrightarrow>
      compare_two_from_summary ext df control_label cl num_samples g = (Inl IndexError, g))
   \<and> (2 < card (set (map fst raw)) \<longrightarrow>
      compare_two ext raw None control_label num_samples g = (Inl AssertionError, g))"
proof (intro conjI impI)
  assume "length df \<noteq> 2 \<or> control_label \<notin> set (map fst df)"
  then show "compare_two_from_summary ext df control_label cl num_samples g = (Inl AssertionError, g)"
    by (auto simp: compare_two_from_summary_def)
next
  assume a: "length df = 2 \<and> control_label \<in> set (map fst df) \<and> \<not> distinct (map fst df)"
  then obtain p1 p2 where df: "df = [p1, p2]"
    by (cases df; cases "tl df") auto
  with a have "fst p1 = control_label" "fst p2 = control_label" by auto
  with df have "other_labels df control_label = []" by (simp add: other_labels_def)
  with a show "compare_two_from_summary ext df control_label cl num_samples g = (Inl IndexError, g)"
    by (simp add: compare_two_from_summary_def del: set_map)
next
  assume "2 < card (set (map fst raw))"
  then show "compare_two ext raw None control_label num_samples g = (Inl AssertionError, g)"
    by (simp add: compare_two_def length_groupby_agg Let_def del: set_map)
qed

theorem two_branch_validation_witness:
  "compare_two_from_summary example_ext scenario ''ctl'' ''num_conversions'' 2 0 = (Inl AssertionError, 0)
   \<and> compare_two_from_summary example_ext three_arms ''a'' ''num_conversions'' 2 0 = (Inl AssertionError, 0)
   \<and> compare_two_from_summary example_ext control_twice ''control'' ''num_conversions'' 2 0
        = (Inl IndexError, 0)
   \<and> compare_two example_ext subjects_three None ''a'' 2 0 = (Inl AssertionError, 0)"
proof -
  have h1: "''ctl'' \<notin> set (map fst scenario)" by (simp add: scenario_def)
  have h2: "length three_arms \<noteq> 2" by (simp add: three_arms_def)
  have h3: "2 < card (set (map fst subjects_three))" by (simp add: subjects_three_def)
  have h4: "length control_twice = 2" "''control'' \<in> set (map fst control_twice)"
    by (simp_all add: control_twice_def)
  have h5: "\<not> distinct (map fst control_twice)" by (simp add: control_twice_def)
  from two_branch_validation [of scenario "''ctl''" example_ext "''num_conversions''" 2 0 subjects_three]
    two_branch_validation [of three_arms "''a''" example_ext "''num_conversions''" 2 0 subjects_three]
    two_branch_validation [of control_twice "''control''" example_ext "''num_conversions''" 2 0 subjects_three]
    h1 h2 h3 h4 h5
  show ?thesis by blast
qed

theorem control_error_counterexample:
  "fst (compare_two_from_summary example_ext scenario ''ctl'' ''num_conversions'' 2 0) = Inl AssertionError
   \<and> fst (compare_two_from_summary example_ext scenario ''ctl'' ''num_conversions'' 2 0) \<noteq> Inl MissingControlError
   \<and> fst (compare_two example_ext subjects_three None ''a'' 2 0) = Inl AssertionError
   \<and> fst (compare_two example_ext subjects_three None ''a'' 2 0) \<noteq> Inl AmbiguousBranchError"
  by (simp add: compare_two_from_summary_def compare_two_def scenario_def subjects_three_def
      groupby_agg_def)

text \<open>
  Claim C7 (binary metric), as amended. \<^verbatim>\<open>compare_two\<close> on data whose metric column
  holds a value other than 0 and 1 fails with AssertionError before the data is
  aggregated and before anything is sampled.
\<close>

theorem compare_two_rejects_nonbinary:
  assumes "\<exists>(b, v) \<in> set df. v \<noteq> 0 \<and> v \<noteq> 1"
  shows "compare_two ext df focus_label control_label num_samples g = (Inl AssertionError, g)"
proof -
  from assms have "\<not> list_all (\<lambda>(b, v). v = 0 \<or> v = 1) df"
    by (auto simp: list_all_iff)
  then show ?thesis by (simp add: compare_two_def)
qed

theorem compare_two_rejects_nonbinary_witness:
  "compare_two example_ext subjects_nonbinary (Some ''treatment'') ''control'' 2 0
     = (Inl AssertionError, 0)"
proof -
  have h: "\<exists>(b, v) \<in> set subjects_nonbinary. v \<noteq> 0 \<and> v \<noteq> 1"
    by (simp add: subjects_nonbinary_def)
  from compare_two_rejects_nonbinary [OF h] show ?thesis .
qed

theorem nonbinary_error_counterexample:
  "fst (compare_two example_ext subjects_nonbinary None ''control'' 2 0) = Inl AssertionError
   \<and> fst (compare_two example_ext subjects_nonbinary None ''control'' 2 0) \<noteq> Inl NonBinaryMetricError"
  by (simp add: compare_two_def subjects_nonbinary_def)

text \<open>
  Claim C8 (degenerate scenario). On the summary table with 100 enrollments and no
  conversion in both the control and the treatment branch, both orchestrators return a
  result for every non-negative \<open>num_samples\<close> (the Beta parameters are 1 and 101),
  and the individual summaries of both branches have mean 0.
\<close>

theorem degenerate_scenario_completes:
  assumes "0 \<le> num_samples"
  shows "\<exists>two many g'.
      compare_two_from_summary ext degenerate ''control'' cl num_samples g = (Inr two, g')
    \<and> compare_many_from_summary ext degenerate cl num_samples g = (Inr many, g')
    \<and> (\<exists>s. individual two ''control'' = Some s \<and> map_of s ''mean'' = Some (Finite 0))
    \<and> (\<exists>s. individual two ''treatment'' = Some s \<and> map_of s ''mean'' = Some (Finite 0))
    \<and> (\<exists>s. individual many ''control'' = Some s \<and> map_of s ''mean'' = Some (Finite 0))
    \<and> (\<exists>s. individual many ''treatment'' = Some s \<and> map_of s ''mean'' = Some (Finite 0))"
proof -
  have valid: "\<forall>(l, r) \<in> set degenerate. row_ok r"
    by (simp add: degenerate_def row_ok_def parameters_fit_def)
  from generate_samples_ok [OF assms valid, of ext g] obtain samples g' where
    run: "generate_samples ext degenerate num_samples g = (Inr samples, g')" by blast
  have h1: "length degenerate = 2" by (simp add: degenerate_def)
  have h3: "''control'' \<in> set (map fst degenerate)" by (simp add: degenerate_def)
  have ol: "other_labels degenerate ''control'' = [''treatment'']"
    by (simp add: other_labels_def degenerate_def)
  have locs: "loc degenerate ''control'' = Inr \<lparr>num_enrollments = 100, num_conversions = 0\<rparr>"
    "loc degenerate ''treatment'' = Inr \<lparr>num_enrollments = 100, num_conversions = 0\<rparr>"
    by (simp_all add: loc_def degenerate_def)
  let ?s = "[(''mean'', Finite 0),
          (''0.005'', beta_ppf ext 1 101 0.005), (''0.05'', beta_ppf ext 1 101 0.05),
          (''0.95'', beta_ppf ext 1 101 0.95), (''0.995'', beta_ppf ext 1 101 0.995)]"
  have summ: "summarize_one_from_summary ext \<lparr>num_enrollments = 100, num_conversions = 0\<rparr> = Inr ?s"
    by (simp add: summarize_one_from_summary_eq true_divide_def)
  from compare_two_from_summary_run [OF h1 h3 ol run, of cl] locs summ obtain two where
    two: "compare_two_from_summary ext degenerate ''control'' cl num_samples g = (Inr two, g')"
      "individual two = [''control'' \<mapsto> ?s, ''treatment'' \<mapsto> ?s]"
    by auto
  from compare_many_from_summary_run [OF run, of cl] obtain many where
    many: "compare_many_from_summary ext degenerate cl num_samples g = (Inr many, g')"
    and ind: "\<forall>b \<in> set (map fst degenerate). \<forall>row s. loc degenerate b = Inr row \<longrightarrow>
           summarize_one_from_summary ext row = Inr s \<longrightarrow> individual many b = Some s"
    by blast
  from ind locs summ have m: "individual many ''control'' = Some ?s" "individual many ''treatment'' = Some ?s"
    by (auto simp: degenerate_def)
  from two many m show ?thesis by simp
qed

theorem degenerate_scenario_completes_witness:
  "\<exists>two many g'.
      compare_two_from_summary example_ext degenerate ''control'' ''num_conversions'' 2 0 = (Inr two, g')
    \<and> compare_many_from_summary example_ext degenerate ''num_conversions'' 2 0 = (Inr many, g')
    \<and> (\<exists>s. individual two ''control'' = Some s \<and> map_of s ''mean'' = Some (Finite 0))
    \<and> (\<exists>s. individual two ''treatment'' = Some s \<and> map_of s ''mean'' = Some (Finite 0))
    \<and> (\<exists>s. individual many ''control'' = Some s \<and> map_of s ''mean'' = Some (Finite 0))
    \<and> (\<exists>s. individual many ''treatment'' = Some s \<and> map_of s ''mean'' = Some (Finite 0))"
proof -
  have h: "(0::int) \<le> 2" by simp
  from degenerate_scenario_completes [OF h, of example_ext "''num_conversions''" 0]
  show ?thesis .
qed

text \<open>
  Claim C9 (individual covers comparative). When \<^verbatim>\<open>compare_two_from_summary\<close>
  returns, its comparative statistics compare the columns of the test branch and of the
  control branch, these two are the branches of the table, and the individual dictionary
  has exactly these two keys. When \<^verbatim>\<open>compare_many_from_summary\<close> returns on a table
  with distinct branches, the comparative table's index and the keys of the individual
  dictionary are the branches of the summary table.
\<close>

theorem individual_covers_comparative:
  "(compare_two_from_summary ext df control_label cl num_samples g = (Inr two, g') \<longrightarrow>
      (\<exists>test_label samples t c.
          generate_samples ext df num_samples g = (Inr samples, g')
        \<and> frame_getitem samples test_label = Inr t
        \<and> frame_getitem samples control_label = Inr c
        \<and> stats (comparative two) = compare_two_sample_sets ext t c
        \<and> test_label \<noteq> control_label
        \<and> set (map fst df) = {control_label, test_label}
        \<and> dom (individual two) = {control_label, test_label}))
   \<and> (distinct (map fst df) \<longrightarrow>
      compare_many_from_summary ext df cl num_samples g = (Inr many, g'') \<longrightarrow>
        map fst (table_rows (comparative many)) = map fst df
      \<and> dom (individual many) = set (map fst df))"
proof (intro conjI impI)
  assume two: "compare_two_from_summary ext df control_label cl num_samples g = (Inr two, g')"
  from compare_two_from_summary_Inr [OF two] obtain test_label ls samples where
    h: "length df = 2" "control_label \<in> set (map fst df)"
       "other_labels df control_label = test_label # ls"
       "generate_samples ext df num_samples g = (Inr samples, g')"
    by blast
  from h(3) other_labels_subset [of df control_label]
  have test: "test_label \<in> set (map fst df)" "test_label \<noteq> control_label" by auto
  from two_labels [of "map fst df" control_label test_label] h(1,2) test
  have labels: "set (map fst df) = {control_label, test_label}" by simp
  from compare_two_from_summary_run [OF h, of cl] two obtain t c sc st where
    r: "frame_getitem samples test_label = Inr t" "frame_getitem samples control_label = Inr c"
       "two = \<lparr>comparative = \<lparr>stats_name = cl, stats = compare_two_sample_sets ext t c\<rparr>,
               individual = [control_label \<mapsto> sc, test_label \<mapsto> st]\<rparr>"
    by auto
  from r(3) have "stats (comparative two) = compare_two_sample_sets ext t c"
    and "dom (individual two) = {control_label, test_label}" by auto
  with h(4) r(1,2) test(2) labels
  show "\<exists>test_label samples t c.
          generate_samples ext df num_samples g = (Inr samples, g')
        \<and> frame_getitem samples test_label = Inr t
        \<and> frame_getitem samples control_label = Inr c
        \<and> stats (comparative two) = compare_two_sample_sets ext t c
        \<and> test_label \<noteq> control_label
        \<and> set (map fst df) = {control_label, test_label}
        \<and> dom (individual two) = {control_label, test_label}"
    by blast
next
  assume many: "compare_many_from_summary ext df cl num_samples g = (Inr many, g'')"
  from compare_many_from_summary_Inr [OF many] obtain samples where
    run: "generate_samples ext df num_samples g = (Inr samples, g'')" by blast
  from compare_many_from_summary_run [OF run, of cl] many
  show "map fst (table_rows (comparative many)) = map fst df"
    and "dom (individual many) = set (map fst df)"
    by auto
qed

theorem individual_covers_comparative_witness:
  "\<exists>two many g'.
      compare_two_from_summary example_ext scenario ''control'' ''num_conversions'' 2 0 = (Inr two, g')
    \<and> dom (individual two) = {''control'', ''treatment''}
    \<and> compare_many_from_summary example_ext three_arms ''num_conversions'' 2 0 = (Inr many, g' + 2)
    \<and> map fst (table_rows (comparative many)) = [''a'', ''b'', ''c'']
    \<and> dom (individual many) = {''a'', ''b'', ''c''}"
proof -
  have h1: "length scenario = 2" by (simp add: scenario_def)
  have h3: "''control'' \<in> set (map fst scenario)" by (simp add: scenario_def)
  have ol: "other_labels scenario ''control'' = [''treatment'']"
    by (simp add: other_labels_def scenario_def)
  from compare_two_from_summary_run [OF h1 h3 ol generate_samples_scenario, of "''num_conversions''"]
  obtain two where
    two: "compare_two_from_summary example_ext scenario ''control'' ''num_conversions'' 2 0 = (Inr two, 4)"
    by blast
  from compare_many_from_summary_run [OF generate_samples_three_arms, of "''num_conversions''"]
  obtain many where
    many: "compare_many_from_summary example_ext three_arms ''num_conversions'' 2 0 = (Inr many, 6)"
    by blast
  have d: "distinct (map fst three_arms)" by (simp add: three_arms_def)
  from individual_covers_comparative
         [where ext = example_ext and df = scenario and two = two and g = 0 and g' = 4
            and control_label = "''control''" and cl = "''num_conversions''" and num_samples = 2]
       two
  obtain test_label where
    "set (map fst scenario) = {''control'', test_label}"
    "dom (individual two) = {''control'', test_label}"
    by blast
  then have a: "dom (individual two) = {''control'', ''treatment''}"
    by (simp add: scenario_def insert_commute)
  from individual_covers_comparative
         [where ext = example_ext and df = three_arms and many = many and g = 0 and g'' = 6
            and cl = "''num_conversions''" and num_samples = 2]
       many d
  have b: "map fst (table_rows (comparative many)) = [''a'', ''b'', ''c'']"
    "dom (individual many) = {''a'', ''b'', ''c''}"
    by (auto simp: three_arms_def)
  from two many a b show ?thesis by auto
qed

text \<open>
  Claim C10 (focus label). On data with exactly two distinct branch labels the result of
  \<^verbatim>\<open>compare_two\<close> is the same for any two values of \<^verbatim>\<open>focus_label\<close>, absent
  (\<open>None\<close>) or not in the data included.
\<close>

theorem compare_two_ignores_focus_label:
  assumes "card (set (map fst df)) = 2"
  shows "compare_two ext df focus_label control_label num_samples g =
         compare_two ext df focus_label' control_label num_samples g"
  using assms by (simp add: compare_two_def length_groupby_agg Let_def del: set_map)

theorem compare_two_ignores_focus_label_witness:
  "card (set (map fst subjects)) = 2 \<and>
   compare_two example_ext subjects None ''control'' 2 0 =
   compare_two example_ext subjects (Some ''absent'') ''control'' 2 0"
proof -
  have h: "card (set (map fst subjects)) = 2" by (simp add: subjects_def card_insert_if)
  from compare_two_ignores_focus_label
         [OF h, where ext = example_ext and focus_label = None
            and focus_label' = "Some ''absent''" and control_label = "''control''"
            and num_samples = 2 and g = 0] h
  show ?thesis by simp
qed

text \<open>
  The assertion of \<^verbatim>\<open>compare_many\<close> asks for the truth value of a Series, so the
  function raises ValueError on every input, binary or not, before it aggregates.
\<close>

theorem compare_many_always_raises:
  "compare_many ext df num_samples g = (Inl ValueError, g)"
  by (simp add: compare_many_def series_bool_def)

end
